theory Spec2Isabelle
  imports Complex_Main
begin

section \<open>Strings as the code uses them\<close>

text \<open>
  A JavaScript string is modelled as a \<^typ>\<open>string\<close>, one \<^typ>\<open>char\<close> per code unit
  (code units below 256; every literal of the source is ASCII). The functions below are
  the String methods the source calls: \<open>startsWith\<close>, \<open>includes\<close>, \<open>trim\<close>,
  \<open>split('\n')\<close> and \<open>substring\<close>.
\<close>

definition startsWith :: "string \<Rightarrow> string \<Rightarrow> bool" where
  "startsWith s p = (take (length p) s = p)"

fun includes_str :: "string \<Rightarrow> string \<Rightarrow> bool" where
  "includes_str [] p = (p = [])"
| "includes_str (c # cs) p = (startsWith (c # cs) p \<or> includes_str cs p)"

definition isWhiteSpace :: "char \<Rightarrow> bool" where
  "isWhiteSpace c = (c \<in> {CHR 0x09, CHR 0x0A, CHR 0x0B, CHR 0x0C, CHR 0x0D, CHR 0x20, CHR 0xA0})"

definition trim :: "string \<Rightarrow> string" where
  "trim s = rev (dropWhile isWhiteSpace (rev (dropWhile isWhiteSpace s)))"

fun split_newline :: "string \<Rightarrow> string list" where
  "split_newline [] = [[]]"
| "split_newline (c # cs) =
     (if c = CHR 0x0A then [] # split_newline cs
      else (case split_newline cs of
              [] \<Rightarrow> [[c]]
            | l # ls \<Rightarrow> (c # l) # ls))"

definition substring_from :: "string \<Rightarrow> nat \<Rightarrow> string" where
  "substring_from s i = drop i s"

definition substring :: "string \<Rightarrow> nat \<Rightarrow> nat \<Rightarrow> string" where
  "substring s i j = take (max i j - min i j) (drop (min i j) s)"

text \<open>Decimal rendering of a number inside a template string.\<close>

definition digit_char :: "nat \<Rightarrow> char" where
  "digit_char d = ''0123456789'' ! d"

function show_nat :: "nat \<Rightarrow> string" where
  "show_nat n = (if n < 10 then [digit_char n] else show_nat (n div 10) @ [digit_char (n mod 10)])"
  by pat_completeness auto
termination
  by (relation "measure (\<lambda>n. n)") auto

declare show_nat.simps [simp del]

text \<open>
  The match of the regular expression \<open>/\{[\s\S]*\}/\<close>: from the first opening brace to
  the last closing brace after it (the star is greedy), or no match.
\<close>

definition jsonMatch :: "string \<Rightarrow> string option" where
  "jsonMatch s =
     (let r = dropWhile (\<lambda>c. c \<noteq> CHR ''{'') s;
          m = rev (dropWhile (\<lambda>c. c \<noteq> CHR ''}'') (rev r))
      in if m = [] then None else Some m)"

section \<open>Data model\<close>

text \<open>
  A value thrown by the code or by the platform: an \<open>Error\<close> instance with its message,
  or any other thrown value, kept as its \<open>String(...)\<close> rendering.
\<close>

datatype thrown = Error string | NonError string

text \<open>Values of type \<open>unknown\<close> that cross the wire are JSON values (numbers as rationals).\<close>

datatype json =
    JNull
  | JBool bool
  | JNum rat
  | JStr string
  | JArr "json list"
  | JObj "(string \<times> json) list"

text \<open>Property read \<open>v.k\<close> on a non-null value; \<open>None\<close> is \<open>undefined\<close>.\<close>

fun member :: "json \<Rightarrow> string \<Rightarrow> json option" where
  "member (JObj kvs) k = map_of kvs k"
| "member _ k = None"

fun truthy :: "json \<Rightarrow> bool" where
  "truthy JNull = False"
| "truthy (JBool b) = b"
| "truthy (JNum q) = (q \<noteq> 0)"
| "truthy (JStr s) = (s \<noteq> [])"
| "truthy (JArr _) = True"
| "truthy (JObj _) = True"

record MCPRequest =
  jsonrpc :: string
  req_id :: nat
  rpc_method :: string
  params :: json

text \<open>
  The HTTP exchange of \<open>fetch\<close>. The request carries the JSON-RPC envelope itself
  (the source sends \<open>JSON.stringify(requestBody)\<close>); the response is its status, its
  \<open>content-type\<close> header (\<open>None\<close> when absent) and the outcome of \<open>response.text()\<close>.
\<close>

record http_request =
  url :: string
  http_method :: string
  headers :: "(string \<times> string) list"
  body :: MCPRequest

record http_response =
  status :: nat
  contentType :: "string option"
  body_text :: "thrown + string"

definition ok :: "http_response \<Rightarrow> bool" where
  "ok response = (200 \<le> status response \<and> status response \<le> 299)"

datatype role = User | Assistant | System

record ToolCall =
  tc_id :: string
  tc_name :: string
  tc_arguments :: json

record ToolCallResult =
  toolCallId :: string
  result :: json

record ChatMessage =
  role :: role
  content :: string
  toolCalls :: "ToolCall list option"
  toolCallResults :: "ToolCallResult list option"

record Tool =
  name :: string
  description :: "string option"
  inputSchema :: "json option"

text \<open>
  The chat-completion wire format. A tool call of the model is a function call
  (id, function name, argument string) or a call of another type, which the code skips.
\<close>

datatype wire_tool_call =
    FunctionToolCall string string string
  | CustomToolCall string

datatype wire_message =
    SystemParam string
  | UserParam string
  | AssistantParam string "wire_tool_call list option"
  | ToolParam string string

record FunctionDefinition =
  fn_name :: string
  fn_description :: string
  fn_parameters :: json

record ChatCompletionTool =
  tool_type :: string
  fn :: FunctionDefinition

record completion_request =
  model :: string
  messages :: "wire_message list"
  req_tools :: "ChatCompletionTool list option"
  tool_choice :: "string option"

record completion_message =
  reply_content :: "string option"
  tool_calls :: "wire_tool_call list option"

text \<open>What the program sends out, in order: the observable trace of a run.\<close>

datatype event = HttpRequest http_request | ModelRequest completion_request

record MCPClient =
  serverUrl :: string
  requestId :: nat
  apiKey :: "string option"

record AIService =
  openai :: bool
  mcpClient :: bool
  tools :: "Tool list"

text \<open>
  The platform and the two remote parties, over a world \<^typ>\<open>'w\<close> that they may change:
  \<open>fetch\<close> (the MCP server behind HTTP), \<open>complete\<close> (the chat-completion endpoint;
  \<open>Inr None\<close> is a response without a first choice), the clock read by \<open>new Date()\<close>
  (ISO date-time, long date, time with zone), and the built-ins \<open>JSON.parse\<close>,
  \<open>JSON.stringify\<close>, \<open>String(v)\<close> and the message of the \<open>TypeError\<close> raised by a
  property read on \<open>null\<close>.
\<close>

record 'w env =
  fetch :: "'w \<Rightarrow> http_request \<Rightarrow> (thrown + http_response) \<times> 'w"
  complete :: "'w \<Rightarrow> completion_request \<Rightarrow> (thrown + completion_message option) \<times> 'w"
  now :: "'w \<Rightarrow> string \<times> string \<times> string"
  parse :: "string \<Rightarrow> thrown + json"
  stringify :: "json \<Rightarrow> string"
  toStr :: "json \<Rightarrow> string"
  nullTypeError :: "string \<Rightarrow> string"

text \<open>
  The state of a run: the world, the one \<open>MCPClient\<close> object of the session, the store of
  \<open>ChatMessage[]\<close> arrays (an array is referred to by its index in the store), and the
  trace of requests sent so far.
\<close>

record 'w state =
  world :: 'w
  client :: MCPClient
  arrays :: "ChatMessage list list"
  sent :: "event list"

section \<open>MCPClient\<close>

definition new_MCPClient :: "string \<Rightarrow> string option \<Rightarrow> MCPClient" where
  "new_MCPClient u k = \<lparr>serverUrl = u, requestId = 0, apiKey = k\<rparr>"

text \<open>
  \<open>++this.requestId\<close>: the incremented value is stored and returned. The counter is a
  JavaScript number that only ever holds an integer; it is a natural number here, which
  is exact for the first \<open>2^53\<close> requests of a client.
\<close>

definition getNextRequestId :: "MCPClient \<Rightarrow> nat \<times> MCPClient" where
  "getNextRequestId c = (requestId c + 1, c\<lparr>requestId := requestId c + 1\<rparr>)"

fun sseLoop :: "string list \<Rightarrow> string \<Rightarrow> string" where
  "sseLoop [] jsonData = jsonData"
| "sseLoop (line # lines) jsonData =
     (if trim line = [] \<or> startsWith line '':'' then sseLoop lines jsonData
      else if startsWith line ''data: '' then sseLoop lines (jsonData @ substring_from line 6)
      else if startsWith line ''event: '' then sseLoop lines jsonData
      else if trim line \<noteq> [] \<and> \<not> startsWith line ''id:'' \<and> \<not> startsWith line ''retry:''
        then sseLoop lines (jsonData @ line)
      else sseLoop lines jsonData)"

definition isSSE :: "string \<Rightarrow> bool" where
  "isSSE ct = (includes_str ct ''text/event-stream'' \<or> includes_str ct ''text/plain'')"

definition parseSSEResponse :: "http_response \<Rightarrow> thrown + string" where
  "parseSSEResponse response =
     (let ct = (case contentType response of None \<Rightarrow> [] | Some h \<Rightarrow> h)
      in if \<not> isSSE ct then body_text response
         else (case body_text response of
                 Inl e \<Rightarrow> Inl e
               | Inr txt \<Rightarrow>
                   (let jsonData = sseLoop (split_newline txt) []
                    in Inr (if jsonData \<noteq> [] then jsonData else txt))))"

text \<open>
  The part of \<open>request\<close> after \<open>fetch\<close> has answered: status check, decoding, the
  fallback on the first brace-delimited substring, and the JSON-RPC envelope.
\<close>

definition parseBody :: "'w env \<Rightarrow> string \<Rightarrow> thrown + json" where
  "parseBody E responseText =
     (case parse E responseText of
        Inr d \<Rightarrow> Inr d
      | Inl parseError \<Rightarrow>
          (case jsonMatch responseText of
             Some m \<Rightarrow> parse E m
           | None \<Rightarrow> Inl (Error (''Failed to parse response as JSON: '' @ substring responseText 0 100))))"

definition errorText :: "'w env \<Rightarrow> json \<Rightarrow> string" where
  "errorText E err =
     (case member err ''message'' of
        None \<Rightarrow> ''MCP server error''
      | Some m \<Rightarrow> if truthy m then (case m of JStr s \<Rightarrow> s | _ \<Rightarrow> toStr E m) else ''MCP server error'')"

definition envelope :: "'w env \<Rightarrow> json \<Rightarrow> thrown + json" where
  "envelope E d =
     (if d = JNull then Inl (Error (nullTypeError E ''error''))
      else if (case member d ''error'' of None \<Rightarrow> False | Some err \<Rightarrow> truthy err)
        then Inl (Error (errorText E (the (member d ''error''))))
      else (case member d ''result'' of
              None \<Rightarrow> Inl (Error ''No result in MCP response'')
            | Some r \<Rightarrow> Inr r))"

definition decodeResponse :: "'w env \<Rightarrow> http_response \<Rightarrow> thrown + json" where
  "decodeResponse E response =
     (if \<not> ok response then Inl (Error (''HTTP error! status: '' @ show_nat (status response)))
      else (case parseSSEResponse response of
              Inl e \<Rightarrow> Inl e
            | Inr responseText \<Rightarrow>
                (case parseBody E responseText of
                   Inl e \<Rightarrow> Inl e
                 | Inr d \<Rightarrow> envelope E d)))"

definition requestHeaders :: "MCPClient \<Rightarrow> (string \<times> string) list" where
  "requestHeaders c =
     [(''Content-Type'', ''application/json'')] @
     (case apiKey c of
        None \<Rightarrow> []
      | Some k \<Rightarrow> if k \<noteq> [] then [(''X-API-KEY'', k)] else [])"

definition httpRequest :: "MCPClient \<Rightarrow> nat \<Rightarrow> string \<Rightarrow> json \<Rightarrow> http_request" where
  "httpRequest c i meth ps =
     \<lparr>url = serverUrl c, http_method = ''POST'', headers = requestHeaders c,
      body = \<lparr>jsonrpc = ''2.0'', req_id = i, rpc_method = meth, params = ps\<rparr>\<rparr>"

definition request :: "'w env \<Rightarrow> string \<Rightarrow> json \<Rightarrow> 'w state \<Rightarrow> (thrown + json) \<times> 'w state" where
  "request E meth ps st =
     (let (i, c) = getNextRequestId (client st);
          hreq = httpRequest c i meth ps;
          (answer, w) = fetch E (world st) hreq;
          st' = st\<lparr>world := w, client := c, sent := sent st @ [HttpRequest hreq]\<rparr>
      in (case answer of
            Inl e \<Rightarrow> (Inl e, st')
          | Inr response \<Rightarrow> (decodeResponse E response, st')))"

text \<open>\<open>if (server) params.server = server\<close>: a null or empty server name adds nothing.\<close>

definition withServer :: "(string \<times> json) list \<Rightarrow> string option \<Rightarrow> json" where
  "withServer ps server =
     JObj (ps @ (case server of
                   None \<Rightarrow> []
                 | Some s \<Rightarrow> if s \<noteq> [] then [(''server'', JStr s)] else []))"

definition initialize :: "'w env \<Rightarrow> 'w state \<Rightarrow> (thrown + json) \<times> 'w state" where
  "initialize E st =
     request E ''initialize''
       (JObj [(''protocolVersion'', JStr ''2024-11-05''),
              (''capabilities'', JObj []),
              (''clientInfo'', JObj [(''name'', JStr ''mcp-example-react''),
                                     (''version'', JStr ''1.0.0'')])]) st"

text \<open>\<open>error instanceof Error ? error.message : String(error)\<close>\<close>

fun errorMessage :: "thrown \<Rightarrow> string" where
  "errorMessage (Error m) = m"
| "errorMessage (NonError s) = s"

definition notFoundShaped :: "string \<Rightarrow> bool" where
  "notFoundShaped m = (includes_str m ''not available'' \<or> includes_str m ''Method'' \<or> includes_str m ''-32601'')"

definition listResources :: "'w env \<Rightarrow> string option \<Rightarrow> 'w state \<Rightarrow> (thrown + json) \<times> 'w state" where
  "listResources E server st =
     (case request E ''resources/list'' (withServer [] server) st of
        (Inr r, st') \<Rightarrow> (Inr r, st')
      | (Inl e, st') \<Rightarrow>
          if notFoundShaped (errorMessage e) then (Inr (JObj [(''resources'', JArr [])]), st')
          else (Inl e, st'))"

definition fetchResource :: "'w env \<Rightarrow> string \<Rightarrow> string option \<Rightarrow> 'w state \<Rightarrow> (thrown + json) \<times> 'w state" where
  "fetchResource E uri server st = request E ''resources/read'' (withServer [(''uri'', JStr uri)] server) st"

definition listTools :: "'w env \<Rightarrow> string option \<Rightarrow> 'w state \<Rightarrow> (thrown + json) \<times> 'w state" where
  "listTools E server st =
     (case request E ''tools/list'' (withServer [] server) st of
        (Inr r, st') \<Rightarrow> (Inr r, st')
      | (Inl e, st') \<Rightarrow>
          if notFoundShaped (errorMessage e) then (Inr (JObj [(''tools'', JArr [])]), st')
          else (Inl e, st'))"

definition callTool :: "'w env \<Rightarrow> string \<Rightarrow> json \<Rightarrow> string option \<Rightarrow> 'w state \<Rightarrow> (thrown + json) \<times> 'w state" where
  "callTool E nm arguments server st =
     request E ''tools/call'' (withServer [(''name'', JStr nm), (''arguments'', arguments)] server) st"

text \<open>
  The public operations; \<open>request\<close> is private, so every request of a client is made by
  one of them.
\<close>

datatype operation =
    Initialize
  | ListResources "string option"
  | FetchResource string "string option"
  | ListTools "string option"
  | CallTool string json "string option"

fun perform :: "'w env \<Rightarrow> operation \<Rightarrow> 'w state \<Rightarrow> (thrown + json) \<times> 'w state" where
  "perform E Initialize st = initialize E st"
| "perform E (ListResources server) st = listResources E server st"
| "perform E (FetchResource uri server) st = fetchResource E uri server st"
| "perform E (ListTools server) st = listTools E server st"
| "perform E (CallTool nm arguments server) st = callTool E nm arguments server st"

fun performAll :: "'w env \<Rightarrow> operation list \<Rightarrow> 'w state \<Rightarrow> 'w state" where
  "performAll E [] st = st"
| "performAll E (opn # ops) st = performAll E ops (snd (perform E opn st))"

fun sentIds :: "event list \<Rightarrow> nat list" where
  "sentIds [] = []"
| "sentIds (HttpRequest h # es) = req_id (body h) # sentIds es"
| "sentIds (ModelRequest r # es) = sentIds es"

section \<open>AIService\<close>

definition new_AIService :: AIService where
  "new_AIService = \<lparr>openai = True, mcpClient = True, tools = []\<rparr>"

definition setTools :: "Tool list \<Rightarrow> AIService \<Rightarrow> AIService" where
  "setTools ts svc = svc\<lparr>tools := ts\<rparr>"

definition emptyObjectSchema :: json where
  "emptyObjectSchema = JObj [(''type'', JStr ''object''), (''properties'', JObj [])]"

definition toolToFunction :: "Tool \<Rightarrow> ChatCompletionTool" where
  "toolToFunction tool =
     \<lparr>tool_type = ''function'',
      fn = \<lparr>fn_name = name tool,
            fn_description =
              (case description tool of
                 None \<Rightarrow> ''Tool: '' @ name tool
               | Some d \<Rightarrow> if d \<noteq> [] then d else ''Tool: '' @ name tool),
            fn_parameters =
              (case inputSchema tool of
                 None \<Rightarrow> emptyObjectSchema
               | Some sch \<Rightarrow> if truthy sch then sch else emptyObjectSchema)\<rparr>\<rparr>"

definition mcpToolsToOpenAIFunctions :: "AIService \<Rightarrow> ChatCompletionTool list" where
  "mcpToolsToOpenAIFunctions svc = map toolToFunction (tools svc)"

definition executeToolCall ::
  "'w env \<Rightarrow> AIService \<Rightarrow> string \<Rightarrow> json \<Rightarrow> 'w state \<Rightarrow> (thrown + json) \<times> 'w state" where
  "executeToolCall E svc toolName arguments st =
     (if \<not> mcpClient svc then (Inl (Error ''MCP client not initialized''), st)
      else callTool E toolName arguments None st)"

definition getSystemContextMessage :: "'w env \<Rightarrow> 'w \<Rightarrow> ChatMessage" where
  "getSystemContextMessage E w =
     (let (dateTime, date, time) = now E w
      in \<lparr>role = System,
          content =
            ''You are an AI assistant integrated with the Dime.Scheduler MCP (Model Context Protocol) server.\<newline>\<newline>Current Date and Time:\<newline>- ISO DateTime: ''
            @ dateTime @ ''\<newline>- Date: '' @ date @ ''\<newline>- Time: '' @ time
            @ ''\<newline>\<newline>You have access to tools and resources from the Dime.Scheduler MCP server. When users ask questions about scheduling, resources, or related topics, you can use the available MCP tools to fetch real-time information and perform actions.\<newline>\<newline>Always be helpful, accurate, and provide clear explanations. When using tools, explain what you''
            @ [CHR 0x27] @ ''re doing to help the user understand the process.'',
          toolCalls = None,
          toolCallResults = None\<rparr>)"

text \<open>The arrays of messages: a fresh array, and \<open>push\<close> on an existing one.\<close>

definition newArray :: "ChatMessage list \<Rightarrow> 'w state \<Rightarrow> nat \<times> 'w state" where
  "newArray xs st = (length (arrays st), st\<lparr>arrays := arrays st @ [xs]\<rparr>)"

definition push :: "nat \<Rightarrow> ChatMessage list \<Rightarrow> 'w state \<Rightarrow> 'w state" where
  "push a xs st = st\<lparr>arrays := (arrays st)[a := arrays st ! a @ xs]\<rparr>"

text \<open>Conversion of one history entry to the wire format, and the loop over the history.\<close>

definition wireOf :: "'w env \<Rightarrow> ChatMessage \<Rightarrow> wire_message list" where
  "wireOf E msg =
     (if role msg = System then [SystemParam (content msg)]
      else if role msg = User then [UserParam (content msg)]
      else
        [AssistantParam (content msg)
           (case toolCalls msg of
              None \<Rightarrow> None
            | Some tcs \<Rightarrow>
                if tcs \<noteq> []
                then Some (map (\<lambda>tc. FunctionToolCall (tc_id tc) (tc_name tc)
                                        (stringify E (tc_arguments tc))) tcs)
                else None)]
        @ (case toolCallResults msg of
             None \<Rightarrow> []
           | Some tcrs \<Rightarrow> map (\<lambda>tcr. ToolParam (toolCallId tcr) (stringify E (result tcr))) tcrs))"

fun toWire :: "'w env \<Rightarrow> ChatMessage list \<Rightarrow> wire_message list \<Rightarrow> wire_message list" where
  "toWire E [] openAIMessages = openAIMessages"
| "toWire E (msg # rest) openAIMessages = toWire E rest (openAIMessages @ wireOf E msg)"

text \<open>
  The loop over the tool calls of the model's reply. It carries the two lists the
  source pushes onto, \<open>toolCalls\<close> and \<open>toolCallResults\<close>, and the state.
\<close>

fun thrownToResult :: "thrown \<Rightarrow> json" where
  "thrownToResult (Error m) = JObj [(''error'', JStr m)]"
| "thrownToResult (NonError s) = JObj [(''error'', JStr ''Unknown error'')]"

fun executeToolCalls ::
  "'w env \<Rightarrow> AIService \<Rightarrow> wire_tool_call list \<Rightarrow> ToolCall list \<times> ToolCallResult list \<times> 'w state
     \<Rightarrow> ToolCall list \<times> ToolCallResult list \<times> 'w state" where
  "executeToolCalls E svc [] acc = acc"
| "executeToolCalls E svc (CustomToolCall i # rest) acc = executeToolCalls E svc rest acc"
| "executeToolCalls E svc (FunctionToolCall i toolName argumentString # rest) (tcs, tcrs, st) =
     (let toolArguments = (case parse E argumentString of Inr v \<Rightarrow> v | Inl e \<Rightarrow> JObj []);
          tcs' = tcs @ [\<lparr>tc_id = i, tc_name = toolName, tc_arguments = toolArguments\<rparr>];
          (outcome, st') = executeToolCall E svc toolName toolArguments st;
          tcrs' = tcrs @ [(case outcome of
                             Inr r \<Rightarrow> \<lparr>toolCallId = i, result = r\<rparr>
                           | Inl e \<Rightarrow> \<lparr>toolCallId = i, result = thrownToResult e\<rparr>)]
      in executeToolCalls E svc rest (tcs', tcrs', st'))"

datatype round = Return ChatMessage | Recurse nat

definition hasSystemMessage :: "ChatMessage list \<Rightarrow> bool" where
  "hasSystemMessage msgs = (case msgs of [] \<Rightarrow> False | m # _ \<Rightarrow> role m = System)"

definition completionRequest :: "AIService \<Rightarrow> wire_message list \<Rightarrow> completion_request" where
  "completionRequest svc openAIMessages =
     (let fs = mcpToolsToOpenAIFunctions svc
      in \<lparr>model = ''gpt-4-turbo-preview'',
          messages = openAIMessages,
          req_tools = (if length fs > 0 then Some fs else None),
          tool_choice = (if length fs > 0 then Some ''auto'' else None)\<rparr>)"

text \<open>
  The body of \<open>chat\<close> in two parts. \<open>handleReply\<close> is what follows the model's reply:
  the tool calls are executed, and either the final message is returned or the extended
  history \<open>updatedMessages\<close> is built, on which \<open>chat\<close> calls itself. \<open>chatRound\<close> is
  one pass through the whole body, up to that recursive call. The argument \<open>a\<close> is the
  caller's array \<open>messages\<close>; \<open>b\<close> is \<open>messagesWithSystemContext\<close>.
\<close>

definition handleReply ::
  "'w env \<Rightarrow> AIService \<Rightarrow> nat \<Rightarrow> completion_message \<Rightarrow> 'w state \<Rightarrow> (thrown + round) \<times> 'w state" where
  "handleReply E svc a assistantMessage st =
     (let (tcs, tcrs, st') =
            (case tool_calls assistantMessage of
               None \<Rightarrow> ([], [], st)
             | Some calls \<Rightarrow> executeToolCalls E svc calls ([], [], st));
          txt = (case reply_content assistantMessage of None \<Rightarrow> [] | Some c \<Rightarrow> c)
      in if length tcs > 0
         then
           (let assistantMsgWithToolCalls =
                  \<lparr>role = Assistant, content = txt,
                   toolCalls = Some tcs, toolCallResults = Some tcrs\<rparr>;
                (u, st'') = newArray (arrays st' ! a @ [assistantMsgWithToolCalls]) st'
            in (Inr (Recurse u), st''))
         else
           (Inr (Return \<lparr>role = Assistant, content = txt,
                         toolCalls = (if length tcs > 0 then Some tcs else None),
                         toolCallResults = (if length tcrs > 0 then Some tcrs else None)\<rparr>),
            st'))"

definition chatRound ::
  "'w env \<Rightarrow> AIService \<Rightarrow> nat \<Rightarrow> 'w state \<Rightarrow> (thrown + round) \<times> 'w state" where
  "chatRound E svc a st =
     (if \<not> openai svc then (Inl (Error ''OpenAI client not initialized''), st)
      else
        let (b, st1) = newArray [] st;
            st2 = (if \<not> hasSystemMessage (arrays st1 ! a)
                   then push b [getSystemContextMessage E (world st1)] st1 else st1);
            st3 = push b (arrays st2 ! a) st2;
            req = completionRequest svc (toWire E (arrays st3 ! b) []);
            (response, w) = complete E (world st3) req;
            st4 = st3\<lparr>world := w, sent := sent st3 @ [ModelRequest req]\<rparr>
        in (case response of
              Inl e \<Rightarrow> (Inl e, st4)
            | Inr None \<Rightarrow> (Inl (Error ''No response from OpenAI''), st4)
            | Inr (Some assistantMessage) \<Rightarrow> handleReply E svc a assistantMessage st4))"

partial_function (option) chat ::
  "'w env \<Rightarrow> AIService \<Rightarrow> nat \<Rightarrow> 'w state \<Rightarrow> ((thrown + ChatMessage) \<times> 'w state) option" where
  "chat E svc a st =
     (case chatRound E svc a st of
        (Inl e, st') \<Rightarrow> Some (Inl e, st')
      | (Inr (Return m), st') \<Rightarrow> Some (Inr m, st')
      | (Inr (Recurse u), st') \<Rightarrow> chat E svc u st')"

section \<open>The session store\<close>

record MCPSessionStore =
  openaiApiKey :: string
  aiService :: "AIService option"
  mcpApiKey :: string
  store_serverUrl :: string
  store_mcpClient :: bool
  connected :: bool
  store_tools :: "Tool list"
  isLoading :: bool
  store_error :: "string option"

text \<open>
  The unchecked cast of a listing result to \<open>ListToolsResult\<close>: \<open>result.tools\<close> is
  \<open>undefined\<close>, or an array of tools. A response that does not have the declared type
  is read as far as it has it.
\<close>

definition asTool :: "json \<Rightarrow> Tool" where
  "asTool j =
     \<lparr>name = (case member j ''name'' of Some (JStr s) \<Rightarrow> s | _ \<Rightarrow> []),
      description = (case member j ''description'' of Some (JStr s) \<Rightarrow> Some s | _ \<Rightarrow> None),
      inputSchema = member j ''inputSchema''\<rparr>"

definition resultTools :: "json \<Rightarrow> Tool list option" where
  "resultTools r = (case member r ''tools'' of Some (JArr xs) \<Rightarrow> Some (map asTool xs) | _ \<Rightarrow> None)"

definition loadTools :: "'w env \<Rightarrow> MCPSessionStore \<times> 'w state \<Rightarrow> MCPSessionStore \<times> 'w state" where
  "loadTools E = (\<lambda>(store, st).
     if \<not> store_mcpClient store then (store, st)
     else
       (case listTools E None st of
          (Inl err, st') \<Rightarrow> (store\<lparr>store_tools := []\<rparr>, st')
        | (Inr r, st') \<Rightarrow>
            if r = JNull then (store\<lparr>store_tools := []\<rparr>, st')
            else
              (let ts = (case resultTools r of None \<Rightarrow> [] | Some xs \<Rightarrow> xs);
                   store1 = store\<lparr>store_tools := ts\<rparr>
               in (case aiService store of
                     None \<Rightarrow> (store1, st')
                   | Some svc \<Rightarrow>
                       if length ts > 0 then (store1\<lparr>aiService := Some (setTools ts svc)\<rparr>, st')
                       else (store1, st')))))"

section \<open>Observations on a run\<close>

text \<open>
  Projections of the trace: the chat-completion requests sent, and the method and
  parameters of each JSON-RPC request sent.
\<close>

fun modelRequests :: "event list \<Rightarrow> completion_request list" where
  "modelRequests [] = []"
| "modelRequests (ModelRequest r # es) = r # modelRequests es"
| "modelRequests (HttpRequest h # es) = modelRequests es"

fun sentCalls :: "event list \<Rightarrow> (string \<times> json) list" where
  "sentCalls [] = []"
| "sentCalls (HttpRequest h # es) = (rpc_method (body h), params (body h)) # sentCalls es"
| "sentCalls (ModelRequest r # es) = sentCalls es"

text \<open>
  The ids of the function calls in a reply, the calls the loop records for them, and
  the JSON-RPC request that executes a recorded call.
\<close>

fun functionIds :: "wire_tool_call list \<Rightarrow> string list" where
  "functionIds [] = []"
| "functionIds (FunctionToolCall i n s # rest) = i # functionIds rest"
| "functionIds (CustomToolCall i # rest) = functionIds rest"

fun recordedCalls :: "'w env \<Rightarrow> wire_tool_call list \<Rightarrow> ToolCall list" where
  "recordedCalls E [] = []"
| "recordedCalls E (FunctionToolCall i n s # rest) =
     \<lparr>tc_id = i, tc_name = n,
      tc_arguments = (case parse E s of Inr v \<Rightarrow> v | Inl e \<Rightarrow> JObj [])\<rparr> # recordedCalls E rest"
| "recordedCalls E (CustomToolCall i # rest) = recordedCalls E rest"

definition callRequest :: "ToolCall \<Rightarrow> string \<times> json" where
  "callRequest tc =
     (''tools/call'', JObj [(''name'', JStr (tc_name tc)), (''arguments'', tc_arguments tc)])"

text \<open>
  The contents of \<open>messagesWithSystemContext\<close> for a history, and the state in which
  \<open>chat\<close> receives the model's reply: the array \<open>messagesWithSystemContext\<close> has been
  allocated and filled, the request has been sent, the world has moved on to \<open>w\<close>.
\<close>

definition withSystemContext :: "'w env \<Rightarrow> 'w \<Rightarrow> ChatMessage list \<Rightarrow> ChatMessage list" where
  "withSystemContext E w msgs =
     (if hasSystemMessage msgs then msgs else getSystemContextMessage E w # msgs)"

definition afterModelCall :: "'w env \<Rightarrow> AIService \<Rightarrow> nat \<Rightarrow> 'w \<Rightarrow> 'w state \<Rightarrow> 'w state" where
  "afterModelCall E svc a w st =
     st\<lparr>arrays := arrays st @ [withSystemContext E (world st) (arrays st ! a)],
        world := w,
        sent := sent st @ [ModelRequest (completionRequest svc
                  (toWire E (withSystemContext E (world st) (arrays st ! a)) []))]\<rparr>"

section \<open>The specification's wording\<close>

text \<open>
  The invariant of the data model: every \<open>toolCallId\<close> in the \<open>toolCallResults\<close> of a
  message is the id of one of the \<open>toolCalls\<close> of the same message.
\<close>

definition paired :: "ChatMessage \<Rightarrow> bool" where
  "paired m =
     (case toolCallResults m of
        None \<Rightarrow> True
      | Some tcrs \<Rightarrow>
          list_all (\<lambda>tcr. toolCallId tcr \<in> set (map tc_id (case toolCalls m of None \<Rightarrow> [] | Some tcs \<Rightarrow> tcs)))
            tcrs)"

text \<open>
  The SSE decode as the specification words it: split the body into lines, discard blank
  lines and comment lines, discard \<open>event:\<close>, \<open>id:\<close> and \<open>retry:\<close> lines, and concatenate
  what follows the prefix on the \<open>data: \<close> lines, in order.
\<close>

definition sseDecode_spec :: "string \<Rightarrow> string" where
  "sseDecode_spec body_txt =
     concat (map (\<lambda>l. substring_from l 6)
       (filter (\<lambda>l. startsWith l ''data: '')
         (filter (\<lambda>l. \<not> startsWith l ''event:'' \<and> \<not> startsWith l ''id:'' \<and> \<not> startsWith l ''retry:'')
           (filter (\<lambda>l. trim l \<noteq> [] \<and> \<not> startsWith l '':'') (split_newline body_txt)))))"

section \<open>Example environments\<close>

text \<open>
  Concrete servers, model replies and states, on which the theorems below are
  instantiated. The world is the number of chat completions served so far; \<open>JSON.parse\<close>
  and \<open>JSON.stringify\<close> are given on the few texts the examples exchange.
\<close>

definition demoTable :: "(string \<times> json) list" where
  \<open>demoTable =
     [(''{"resourceId":"X"}'', JObj [(''resourceId'', JStr ''X'')]),
      (''{"result":{"free":true}}'', JObj [(''result'', JObj [(''free'', JBool True)])]),
      (''{"error":{"code":-32601,"message":"Error -32601"}}'',
         JObj [(''error'', JObj [(''code'', JNum (- 32601)), (''message'', JStr ''Error -32601'')])]),
      (''{"error":{"code":-32603,"message":"Internal error"}}'',
         JObj [(''error'', JObj [(''code'', JNum (- 32603)), (''message'', JStr ''Internal error'')])]),
      (''{"result":{"tools":[{"name":"getResourceSchedule"}]}}'',
         JObj [(''result'', JObj [(''tools'', JArr [JObj [(''name'', JStr ''getResourceSchedule'')]])])]),
      (''{"result":{"tools":[]}}'', JObj [(''result'', JObj [(''tools'', JArr [])])]),
      (''{}'', JObj [])]\<close>

definition demoParse :: "string \<Rightarrow> thrown + json" where
  "demoParse s = (case map_of demoTable s of
                    Some j \<Rightarrow> Inr j
                  | None \<Rightarrow> Inl (Error ''Unexpected token in JSON''))"

definition demoStringify :: "json \<Rightarrow> string" where
  "demoStringify j = (case map_of (map (\<lambda>(s, v). (v, s)) demoTable) j of
                        Some s \<Rightarrow> s
                      | None \<Rightarrow> ''null'')"

definition demoEnv ::
  "(MCPRequest \<Rightarrow> http_response) \<Rightarrow> (nat \<Rightarrow> completion_message option) \<Rightarrow> nat env" where
  "demoEnv server replies =
     \<lparr>fetch = (\<lambda>w r. (Inr (server (body r)), w)),
      complete = (\<lambda>w r. (Inr (replies w), Suc w)),
      now = (\<lambda>w. (''2025-01-01T00:00:00.000Z'', ''Wednesday, January 1, 2025'', ''12:00:00 AM UTC'')),
      parse = demoParse,
      stringify = demoStringify,
      toStr = (\<lambda>j. ''[object Object]''),
      nullTypeError = (\<lambda>k. ''Cannot read properties of null'')\<rparr>"

definition jsonResponse :: "string \<Rightarrow> http_response" where
  "jsonResponse s = \<lparr>status = 200, contentType = Some ''application/json'', body_text = Inr s\<rparr>"

definition failingServer :: "MCPRequest \<Rightarrow> http_response" where
  "failingServer r = \<lparr>status = 500, contentType = None, body_text = Inr []\<rparr>"

definition plainServer :: "MCPRequest \<Rightarrow> http_response" where
  "plainServer r = \<lparr>status = 200, contentType = Some ''text/plain'', body_text = Inr ''Method Not Allowed''\<rparr>"

definition okServer :: "MCPRequest \<Rightarrow> http_response" where
  \<open>okServer r = jsonResponse ''{"result":{"free":true}}''\<close>

definition errorServer :: "MCPRequest \<Rightarrow> http_response" where
  \<open>errorServer r =
     (if rpc_method r = ''tools/list''
      then jsonResponse ''{"error":{"code":-32601,"message":"Error -32601"}}''
      else jsonResponse ''{"error":{"code":-32603,"message":"Internal error"}}'')\<close>

definition catalogServer :: "MCPRequest \<Rightarrow> http_response" where
  \<open>catalogServer r =
     (if req_id r = 1
      then jsonResponse ''{"result":{"tools":[{"name":"getResourceSchedule"}]}}''
      else jsonResponse ''{"result":{"tools":[]}}'')\<close>

definition toolThenText :: "nat \<Rightarrow> completion_message option" where
  \<open>toolThenText w =
     (if w = 0
      then Some \<lparr>reply_content = None,
                 tool_calls = Some [FunctionToolCall ''call_1'' ''getResourceSchedule'' ''{"resourceId":"X"}'']\<rparr>
      else Some \<lparr>reply_content = Some ''The schedule is unavailable.'', tool_calls = None\<rparr>)\<close>

definition badArgsThenText :: "nat \<Rightarrow> completion_message option" where
  \<open>badArgsThenText w =
     (if w = 0
      then Some \<lparr>reply_content = None,
                 tool_calls = Some [FunctionToolCall ''call_1'' ''getResourceSchedule'' ''{"resourceId":'']\<rparr>
      else Some \<lparr>reply_content = Some ''X is free.'', tool_calls = None\<rparr>)\<close>

definition demoE :: "nat env" where
  "demoE = demoEnv failingServer toolThenText"

definition demoQuestion :: ChatMessage where
  "demoQuestion = \<lparr>role = User, content = ''When is X free?'', toolCalls = None, toolCallResults = None\<rparr>"

definition demoState :: "nat state" where
  "demoState =
     \<lparr>world = 0, client = new_MCPClient ''https://sandbox.api.dimescheduler.com/mcp'' (Some ''key''),
      arrays = [[demoQuestion]],
      sent = []\<rparr>"

definition downE :: "nat env" where
  "downE = demoE\<lparr>complete := (\<lambda>w r. (if w = 0 then Inr (toolThenText 0)
                                         else Inl (Error ''model down''), Suc w))\<rparr>"

definition demoSystem :: ChatMessage where
  "demoSystem = \<lparr>role = System, content = ''Be brief.'', toolCalls = None, toolCallResults = None\<rparr>"

definition demoSystemState :: "nat state" where
  "demoSystemState = demoState\<lparr>arrays := [[demoSystem, demoQuestion]]\<rparr>"

definition demoToolMessage :: ChatMessage where
  "demoToolMessage =
     \<lparr>role = Assistant, content = [],
      toolCalls = Some [\<lparr>tc_id = ''call_1'', tc_name = ''getResourceSchedule'',
                         tc_arguments = JObj [(''resourceId'', JStr ''X'')]\<rparr>],
      toolCallResults = Some [\<lparr>toolCallId = ''call_1'',
                               result = JObj [(''error'', JStr ''HTTP error! status: 500'')]\<rparr>]\<rparr>"

definition demoAnswer :: ChatMessage where
  "demoAnswer = \<lparr>role = Assistant, content = ''The schedule is unavailable.'',
                  toolCalls = None, toolCallResults = None\<rparr>"

definition demoTool :: Tool where
  "demoTool = \<lparr>name = ''getResourceSchedule'', description = None, inputSchema = None\<rparr>"

definition demoStore :: MCPSessionStore where
  "demoStore =
     \<lparr>openaiApiKey = ''sk-demo'', aiService = Some new_AIService, mcpApiKey = ''key'',
      store_serverUrl = ''https://sandbox.api.dimescheduler.com/mcp'', store_mcpClient = True,
      connected = True, store_tools = [], isLoading = False, store_error = None\<rparr>"

definition sseExample :: http_response where
  \<open>sseExample = \<lparr>status = 200, contentType = Some ''text/event-stream'',
     body_text = Inr ''event: message\<newline>data: {"a":\<newline>data: 1}\<newline>\<newline>''\<rparr>\<close>

section \<open>Facts about the string functions\<close>

lemma includes_str_iff: "includes_str s p \<longleftrightarrow> (\<exists>u v. s = u @ p @ v)"
proof (induction s)
  case Nil
  then show ?case by auto
next
  case (Cons c cs)
  have "startsWith (c # cs) p \<longleftrightarrow> (\<exists>v. c # cs = p @ v)"
  proof
    assume "startsWith (c # cs) p"
    then have "c # cs = p @ drop (length p) (c # cs)"
      unfolding startsWith_def by (metis append_take_drop_id)
    then show "\<exists>v. c # cs = p @ v" ..
  next
    assume "\<exists>v. c # cs = p @ v"
    then obtain v where "c # cs = p @ v" ..
    then show "startsWith (c # cs) p" unfolding startsWith_def by simp
  qed
  moreover have "(\<exists>u v. c # cs = u @ p @ v) \<longleftrightarrow> (\<exists>v. c # cs = p @ v) \<or> (\<exists>u v. cs = u @ p @ v)"
  proof
    assume "\<exists>u v. c # cs = u @ p @ v"
    then obtain u v where uv: "c # cs = u @ p @ v" by blast
    show "(\<exists>v. c # cs = p @ v) \<or> (\<exists>u v. cs = u @ p @ v)"
    proof (cases u)
      case Nil
      with uv show ?thesis by auto
    next
      case (Cons d u')
      with uv have "cs = u' @ p @ v" by simp
      then show ?thesis by blast
    qed
  next
    assume "(\<exists>v. c # cs = p @ v) \<or> (\<exists>u v. cs = u @ p @ v)"
    then show "\<exists>u v. c # cs = u @ p @ v"
    proof
      assume "\<exists>v. c # cs = p @ v"
      then obtain v where "c # cs = [] @ p @ v" by auto
      then show ?thesis by blast
    next
      assume "\<exists>u v. cs = u @ p @ v"
      then obtain u v where "cs = u @ p @ v" by blast
      then have "c # cs = (c # u) @ p @ v" by simp
      then show ?thesis by blast
    qed
  qed
  ultimately show ?case using Cons.IH by simp
qed

lemma trim_empty: "trim l = [] \<longleftrightarrow> (\<forall>c\<in>set l. isWhiteSpace c)"
proof -
  let ?d = "dropWhile isWhiteSpace l"
  have 1: "trim l = [] \<longleftrightarrow> (\<forall>c\<in>set ?d. isWhiteSpace c)"
    by (simp add: trim_def dropWhile_eq_Nil_conv)
  have 2: "(\<forall>c\<in>set ?d. isWhiteSpace c) \<longleftrightarrow> ?d = []"
  proof
    assume a: "\<forall>c\<in>set ?d. isWhiteSpace c"
    show "?d = []"
    proof (rule ccontr)
      assume n: "?d \<noteq> []"
      then have "\<not> isWhiteSpace (hd ?d)" by (rule hd_dropWhile)
      moreover from n have "hd ?d \<in> set ?d" by simp
      ultimately show False using a by blast
    qed
  next
    assume e: "?d = []"
    show "\<forall>c\<in>set ?d. isWhiteSpace c" unfolding e by simp
  qed
  have 3: "?d = [] \<longleftrightarrow> (\<forall>c\<in>set l. isWhiteSpace c)"
    by (simp add: dropWhile_eq_Nil_conv)
  from 1 2 3 show ?thesis by simp
qed

lemma data_line_kept:
  assumes "startsWith l ''data: ''"
  shows "trim l \<noteq> []" and "\<not> startsWith l '':''" and "\<not> startsWith l ''event:''"
    and "\<not> startsWith l ''id:''" and "\<not> startsWith l ''retry:''"
proof -
  from assms obtain r where l: "l = CHR ''d'' # r"
    by (cases l) (auto simp: startsWith_def)
  have "\<not> isWhiteSpace (CHR ''d'')" by (simp add: isWhiteSpace_def)
  with l show "trim l \<noteq> []" by (auto simp: trim_empty)
  from l show "\<not> startsWith l '':''" by (simp add: startsWith_def)
  from l show "\<not> startsWith l ''event:''" by (simp add: startsWith_def)
  from l show "\<not> startsWith l ''id:''" by (simp add: startsWith_def)
  from l show "\<not> startsWith l ''retry:''" by (simp add: startsWith_def)
qed

lemma sseDecode_spec_data:
  "sseDecode_spec body_txt =
     concat (map (\<lambda>l. drop 6 l) (filter (\<lambda>l. startsWith l ''data: '') (split_newline body_txt)))"
proof -
  have "filter (\<lambda>l. startsWith l ''data: '')
         (filter (\<lambda>l. \<not> startsWith l ''event:'' \<and> \<not> startsWith l ''id:'' \<and> \<not> startsWith l ''retry:'')
           (filter (\<lambda>l. trim l \<noteq> [] \<and> \<not> startsWith l '':'') ls))
        = filter (\<lambda>l. startsWith l ''data: '') ls" for ls
    by (induction ls) (auto dest: data_line_kept)
  then show ?thesis by (simp add: sseDecode_spec_def substring_from_def)
qed

lemma sseLoop_standard:
  assumes "\<forall>l\<in>set ls. trim l = [] \<or> startsWith l '':'' \<or> startsWith l ''data: ''
             \<or> startsWith l ''event: '' \<or> startsWith l ''id:'' \<or> startsWith l ''retry:''"
  shows "sseLoop ls acc = acc @ concat (map (\<lambda>l. drop 6 l) (filter (\<lambda>l. startsWith l ''data: '') ls))"
  using assms
proof (induction ls arbitrary: acc)
  case Nil
  show ?case by simp
next
  case (Cons l ls)
  from Cons.prems have rest: "\<forall>l\<in>set ls. trim l = [] \<or> startsWith l '':'' \<or> startsWith l ''data: ''
             \<or> startsWith l ''event: '' \<or> startsWith l ''id:'' \<or> startsWith l ''retry:''"
    by simp
  from Cons.prems have this_line: "trim l = [] \<or> startsWith l '':'' \<or> startsWith l ''data: ''
             \<or> startsWith l ''event: '' \<or> startsWith l ''id:'' \<or> startsWith l ''retry:''"
    by simp
  show ?case
  proof (cases "startsWith l ''data: ''")
    case True
    with data_line_kept(1,2) [OF True] Cons.IH [OF rest] show ?thesis
      by (simp add: substring_from_def)
  next
    case False
    with this_line Cons.IH [OF rest] show ?thesis by auto
  qed
qed

lemma includes_str_subset: "includes_str s p \<Longrightarrow> set p \<subseteq> set s"
  by (auto simp: includes_str_iff)

lemma show_nat_digits: "set (show_nat n) \<subseteq> set ''0123456789''"
proof (induction n rule: show_nat.induct)
  case (1 n)
  have d: "digit_char k \<in> set ''0123456789''" if "k < 10" for k
    unfolding digit_char_def using that by (intro nth_mem) simp
  show ?case
  proof (cases "n < 10")
    case True
    with d [of n] show ?thesis by (subst show_nat.simps) simp
  next
    case False
    have "n mod 10 < 10" by simp
    with False "1.IH" d [of "n mod 10"] show ?thesis
      by (subst show_nat.simps) simp
  qed
qed

lemma http_error_chars:
  assumes "c \<notin> set ''HTTP error! status: ''" and "c \<notin> set ''0123456789''" and "c \<in> set p"
  shows "\<not> includes_str (''HTTP error! status: '' @ show_nat n) p"
proof
  assume "includes_str (''HTTP error! status: '' @ show_nat n) p"
  then have "set p \<subseteq> set (''HTTP error! status: '' @ show_nat n)" by (rule includes_str_subset)
  with assms(3) have "c \<in> set (''HTTP error! status: '' @ show_nat n)" by blast
  then have "c \<in> set ''HTTP error! status: '' \<or> c \<in> set (show_nat n)"
    by (simp only: set_append Un_iff)
  with assms(1) have "c \<in> set (show_nat n)" by blast
  with show_nat_digits [of n] have "c \<in> set ''0123456789''" by blast
  with assms(2) show False by blast
qed

lemma http_error_no_marker:
  "\<not> includes_str (''HTTP error! status: '' @ show_nat n) ''not available''"
  "\<not> includes_str (''HTTP error! status: '' @ show_nat n) ''Method''"
  "\<not> includes_str (''HTTP error! status: '' @ show_nat n) ''-32601''"
proof -
  show "\<not> includes_str (''HTTP error! status: '' @ show_nat n) ''not available''"
    by (rule http_error_chars [of "CHR ''v''"]) simp_all
  show "\<not> includes_str (''HTTP error! status: '' @ show_nat n) ''Method''"
    by (rule http_error_chars [of "CHR ''M''"]) simp_all
  show "\<not> includes_str (''HTTP error! status: '' @ show_nat n) ''-32601''"
    by (rule http_error_chars [of "CHR ''-''"]) simp_all
qed

section \<open>Decoding an SSE-framed response\<close>

text \<open>
  Claim C3, as amended. For a response whose \<open>content-type\<close> contains \<open>text/event-stream\<close>
  or \<open>text/plain\<close> and whose body has only blank lines, comment lines (starting with a
  colon) and lines starting with \<open>data: \<close>, \<open>event: \<close>, \<open>id:\<close> or \<open>retry:\<close>, the decode is
  the decode of the specification, the concatenation in order of what follows \<open>data: \<close>
  on the data lines, when that is not empty, and the unchanged body when it is empty
  (the fallback \<open>jsonData || text\<close>).
\<close>

theorem parseSSE_standard_lines:
  assumes "contentType response = Some ct"
      and "includes_str ct ''text/event-stream'' \<or> includes_str ct ''text/plain''"
      and "body_text response = Inr body_txt"
      and "\<forall>l\<in>set (split_newline body_txt). trim l = [] \<or> startsWith l '':'' \<or> startsWith l ''data: ''
             \<or> startsWith l ''event: '' \<or> startsWith l ''id:'' \<or> startsWith l ''retry:''"
  shows "parseSSEResponse response =
           Inr (if sseDecode_spec body_txt \<noteq> [] then sseDecode_spec body_txt else body_txt)"
proof -
  have sse: "isSSE ct" using assms(2) by (simp add: isSSE_def)
  have loop: "sseLoop (split_newline body_txt) [] = sseDecode_spec body_txt"
    using sseLoop_standard [OF assms(4), of "[]"] by (simp only: sseDecode_spec_data append_Nil)
  show ?thesis
    using sse assms(1,3) by (simp add: parseSSEResponse_def Let_def loop)
qed

text \<open>
  The example of the specification: the body
  \<open>event: message\ndata: {"a":\ndata: 1}\n\n\<close> decodes to \<open>{"a":1}\<close>.
\<close>

theorem parseSSE_standard_lines_witness:
  \<open>parseSSEResponse sseExample = Inr ''{"a":1}''\<close>
proof -
  have c: "contentType sseExample = Some ''text/event-stream''" by (simp add: sseExample_def)
  have i: "includes_str ''text/event-stream'' ''text/event-stream'' \<or> includes_str ''text/event-stream'' ''text/plain''"
    by (simp add: startsWith_def)
  have b: \<open>body_text sseExample = Inr ''event: message\<newline>data: {"a":\<newline>data: 1}\<newline>\<newline>''\<close>
    by (simp add: sseExample_def)
  have l: \<open>\<forall>l\<in>set (split_newline ''event: message\<newline>data: {"a":\<newline>data: 1}\<newline>\<newline>'').
             trim l = [] \<or> startsWith l '':'' \<or> startsWith l ''data: ''
             \<or> startsWith l ''event: '' \<or> startsWith l ''id:'' \<or> startsWith l ''retry:''\<close>
    by (simp add: startsWith_def trim_def)
  show ?thesis
    using parseSSE_standard_lines [OF c i b l]
    by (simp add: sseDecode_spec_def startsWith_def trim_def isWhiteSpace_def substring_from_def)
qed

text \<open>
  The claim as it is stated fails: a line that is none of these forms is not discarded
  but appended as it is. A \<open>text/plain\<close> body with the lines \<open>hello\<close> and \<open>data: 1\<close>
  decodes to \<open>hello1\<close>, where the concatenation of the data lines is \<open>1\<close>.
\<close>

theorem sse_decode_counterexample:
  "parseSSEResponse \<lparr>status = 200, contentType = Some ''text/plain'',
                     body_text = Inr ''hello\<newline>data: 1''\<rparr> = Inr ''hello1''
   \<and> sseDecode_spec ''hello\<newline>data: 1'' = ''1''"
  by (simp add: parseSSEResponse_def isSSE_def startsWith_def trim_def isWhiteSpace_def
                substring_from_def sseDecode_spec_def)

section \<open>The request counter\<close>

lemma sentIds_append: "sentIds (xs @ ys) = sentIds xs @ sentIds ys"
  by (induction xs rule: sentIds.induct) auto

lemma request_eq:
  assumes "fetch E (world st)
             (httpRequest ((client st)\<lparr>requestId := Suc (requestId (client st))\<rparr>)
                (Suc (requestId (client st))) m p) = (answer, w)"
  shows "request E m p st =
           ((case answer of Inl e \<Rightarrow> Inl e | Inr r \<Rightarrow> decodeResponse E r),
            st\<lparr>world := w,
               client := (client st)\<lparr>requestId := Suc (requestId (client st))\<rparr>,
               sent := sent st @ [HttpRequest
                  (httpRequest ((client st)\<lparr>requestId := Suc (requestId (client st))\<rparr>)
                     (Suc (requestId (client st))) m p)]\<rparr>)"
  using assms unfolding request_def getNextRequestId_def
  by (cases answer) (simp_all add: Let_def)

lemma request_client:
  "requestId (client (snd (request E m p st))) = Suc (requestId (client st))"
proof -
  obtain answer w where "fetch E (world st)
             (httpRequest ((client st)\<lparr>requestId := Suc (requestId (client st))\<rparr>)
                (Suc (requestId (client st))) m p) = (answer, w)"
    by (rule prod.exhaust)
  from request_eq [OF this] show ?thesis by simp
qed

lemma request_sent:
  "sentIds (sent (snd (request E m p st))) = sentIds (sent st) @ [Suc (requestId (client st))]"
proof -
  obtain answer w where "fetch E (world st)
             (httpRequest ((client st)\<lparr>requestId := Suc (requestId (client st))\<rparr>)
                (Suc (requestId (client st))) m p) = (answer, w)"
    by (rule prod.exhaust)
  from request_eq [OF this] show ?thesis by (simp add: sentIds_append httpRequest_def)
qed

lemma listTools_snd: "snd (listTools E server st) = snd (request E ''tools/list'' (withServer [] server) st)"
  by (cases "request E ''tools/list'' (withServer [] server) st") (simp add: listTools_def split: sum.splits)

lemma listResources_snd: "snd (listResources E server st) = snd (request E ''resources/list'' (withServer [] server) st)"
  by (cases "request E ''resources/list'' (withServer [] server) st") (simp add: listResources_def split: sum.splits)

lemma perform_client: "requestId (client (snd (perform E opn st))) = Suc (requestId (client st))"
  by (cases opn)
     (simp_all add: initialize_def fetchResource_def callTool_def listTools_snd listResources_snd request_client)

lemma perform_sent:
  "sentIds (sent (snd (perform E opn st))) = sentIds (sent st) @ [Suc (requestId (client st))]"
  by (cases opn)
     (simp_all add: initialize_def fetchResource_def callTool_def listTools_snd listResources_snd request_sent)

lemma performAll_ids:
  "requestId (client (performAll E ops st)) = requestId (client st) + length ops \<and>
   sentIds (sent (performAll E ops st)) =
     sentIds (sent st) @ [Suc (requestId (client st)) ..< Suc (requestId (client st) + length ops)]"
proof (induction ops arbitrary: st)
  case Nil
  show ?case by simp
next
  case (Cons opn ops)
  have "[Suc (requestId (client st)) ..< Suc (requestId (client st) + length (opn # ops))]
          = Suc (requestId (client st)) # [Suc (Suc (requestId (client st))) ..< Suc (Suc (requestId (client st)) + length ops)]"
    by (simp add: upt_rec)
  then show ?case
    using Cons.IH [of "snd (perform E opn st)"]
    by (simp add: perform_client perform_sent)
qed

text \<open>
  Claim C4. On one client, created by the constructor, any sequence of public operations
  (each makes exactly one \<open>request\<close>) sends the ids 1, 2, ..., n in this order: the ids are
  strictly increasing, never reused, the first one is 1, and the counter grows by exactly
  one per operation whatever \<open>fetch\<close> and the server answer, failures included.
\<close>

theorem request_ids_increase:
  "sentIds (sent (performAll E ops \<lparr>world = w, client = new_MCPClient u k, arrays = hs, sent = []\<rparr>))
     = [1 ..< Suc (length ops)]
   \<and> sorted_wrt (<) (sentIds (sent (performAll E ops \<lparr>world = w, client = new_MCPClient u k, arrays = hs, sent = []\<rparr>)))
   \<and> distinct (sentIds (sent (performAll E ops \<lparr>world = w, client = new_MCPClient u k, arrays = hs, sent = []\<rparr>)))
   \<and> requestId (client (performAll E ops \<lparr>world = w, client = new_MCPClient u k, arrays = hs, sent = []\<rparr>)) = length ops
   \<and> requestId (client (snd (perform E opn st))) = requestId (client st) + 1"
proof -
  let ?st = "\<lparr>world = w, client = new_MCPClient u k, arrays = hs, sent = []\<rparr>"
  have ids: "sentIds (sent (performAll E ops ?st)) = [1 ..< Suc (length ops)]"
    using performAll_ids [of E ops ?st] by (simp add: new_MCPClient_def)
  have n: "requestId (client (performAll E ops ?st)) = length ops"
    using performAll_ids [of E ops ?st] by (simp add: new_MCPClient_def)
  have s: "sorted_wrt (<) [1 ..< Suc (length ops)]" by (rule sorted_wrt_upt)
  have d: "distinct [1 ..< Suc (length ops)]" by (rule distinct_upt)
  show ?thesis
    using ids n s d by (simp add: perform_client)
qed

section \<open>Optional capabilities: listTools and listResources\<close>

text \<open>
  Claim C1, as amended. Whenever the underlying request of \<open>listTools\<close> fails, with
  whatever thrown value and from whatever cause (HTTP status, undecodable body, JSON-RPC
  error, missing result), \<open>listTools\<close> returns \<open>{tools: []}\<close> exactly when the message of
  the failure contains \<open>not available\<close>, \<open>Method\<close> or \<open>-32601\<close>, and otherwise throws that
  same value; \<open>listResources\<close> does the same with \<open>{resources: []}\<close>. The code has no
  kinds of error: the test is on the message alone. A failure by HTTP status has a
  message without any marker, so it is always thrown on.
\<close>

theorem listTools_degrades_iff_marker:
  "(request E ''tools/list'' (withServer [] server) st = (Inl e, st') \<longrightarrow>
      listTools E server st =
        (if includes_str (errorMessage e) ''not available'' \<or> includes_str (errorMessage e) ''Method''
            \<or> includes_str (errorMessage e) ''-32601''
         then Inr (JObj [(''tools'', JArr [])]) else Inl e, st'))
   \<and> (request E ''resources/list'' (withServer [] server) st = (Inl e, st') \<longrightarrow>
      listResources E server st =
        (if includes_str (errorMessage e) ''not available'' \<or> includes_str (errorMessage e) ''Method''
            \<or> includes_str (errorMessage e) ''-32601''
         then Inr (JObj [(''resources'', JArr [])]) else Inl e, st'))
   \<and> (request E ''tools/list'' (withServer [] server) st
          = (Inl (Error (''HTTP error! status: '' @ show_nat n)), st') \<longrightarrow>
      listTools E server st = (Inl (Error (''HTTP error! status: '' @ show_nat n)), st'))
   \<and> (request E ''resources/list'' (withServer [] server) st
          = (Inl (Error (''HTTP error! status: '' @ show_nat n)), st') \<longrightarrow>
      listResources E server st = (Inl (Error (''HTTP error! status: '' @ show_nat n)), st'))"
proof -
  have nf: "\<not> notFoundShaped (''HTTP error! status: '' @ show_nat n)"
    unfolding notFoundShaped_def using http_error_no_marker [of n] by blast
  have 1: "request E ''tools/list'' (withServer [] server) st = (Inl e, st') \<longrightarrow>
      listTools E server st =
        (if includes_str (errorMessage e) ''not available'' \<or> includes_str (errorMessage e) ''Method''
            \<or> includes_str (errorMessage e) ''-32601''
         then Inr (JObj [(''tools'', JArr [])]) else Inl e, st')"
    by (simp add: listTools_def notFoundShaped_def)
  have 2: "request E ''resources/list'' (withServer [] server) st = (Inl e, st') \<longrightarrow>
      listResources E server st =
        (if includes_str (errorMessage e) ''not available'' \<or> includes_str (errorMessage e) ''Method''
            \<or> includes_str (errorMessage e) ''-32601''
         then Inr (JObj [(''resources'', JArr [])]) else Inl e, st')"
    by (simp add: listResources_def notFoundShaped_def)
  have 3: "request E ''tools/list'' (withServer [] server) st
          = (Inl (Error (''HTTP error! status: '' @ show_nat n)), st') \<longrightarrow>
      listTools E server st = (Inl (Error (''HTTP error! status: '' @ show_nat n)), st')"
    using nf by (simp add: listTools_def)
  have 4: "request E ''resources/list'' (withServer [] server) st
          = (Inl (Error (''HTTP error! status: '' @ show_nat n)), st') \<longrightarrow>
      listResources E server st = (Inl (Error (''HTTP error! status: '' @ show_nat n)), st')"
    using nf by (simp add: listResources_def)
  from 1 2 3 4 show ?thesis by blast
qed

section \<open>Running the example environments\<close>

lemma demo_complete: "complete (demoEnv s r) w q = (Inr (r w), Suc w)"
  by (simp add: demoEnv_def)

lemma demo_fetch: "fetch (demoEnv s r) w q = (Inr (s (body q)), w)"
  by (simp add: demoEnv_def)

lemma demo_parse: "parse (demoEnv s r) = demoParse"
  by (simp add: demoEnv_def)

lemma show_500: "show_nat 500 = ''500''"
  by (simp add: show_nat.simps digit_char_def)

lemma failing_decode: "decodeResponse E (failingServer r) = Inl (Error ''HTTP error! status: 500'')"
  by (simp add: decodeResponse_def failingServer_def ok_def show_500)

lemma plain_decode:
  "parseSSEResponse (plainServer r) = Inr ''Method Not Allowed''"
  "parseBody (demoEnv srv rs) ''Method Not Allowed'' =
     Inl (Error ''Failed to parse response as JSON: Method Not Allowed'')"
  "decodeResponse (demoEnv srv rs) (plainServer r) =
     Inl (Error ''Failed to parse response as JSON: Method Not Allowed'')"
proof -
  show 1: "parseSSEResponse (plainServer r) = Inr ''Method Not Allowed''"
    by (simp add: parseSSEResponse_def plainServer_def isSSE_def startsWith_def trim_def
          isWhiteSpace_def)
  show 2: "parseBody (demoEnv srv rs) ''Method Not Allowed'' =
     Inl (Error ''Failed to parse response as JSON: Method Not Allowed'')"
    by (simp add: parseBody_def demo_parse demoParse_def demoTable_def jsonMatch_def substring_def)
  show "decodeResponse (demoEnv srv rs) (plainServer r) =
     Inl (Error ''Failed to parse response as JSON: Method Not Allowed'')"
    using 1 2 by (simp add: decodeResponse_def) (simp add: plainServer_def ok_def)
qed

lemma decode_json:
  assumes "demoParse s = Inr d"
  shows "decodeResponse (demoEnv srv rs) (jsonResponse s) = envelope (demoEnv srv rs) d"
  using assms
  by (simp add: decodeResponse_def jsonResponse_def ok_def parseSSEResponse_def isSSE_def
                startsWith_def parseBody_def demo_parse)

lemma demo_request:
  "request (demoEnv srv rs) m p st =
     (decodeResponse (demoEnv srv rs)
        (srv \<lparr>jsonrpc = ''2.0'', req_id = Suc (requestId (client st)), rpc_method = m, params = p\<rparr>),
      st\<lparr>world := world st,
         client := (client st)\<lparr>requestId := Suc (requestId (client st))\<rparr>,
         sent := sent st @ [HttpRequest
            (httpRequest ((client st)\<lparr>requestId := Suc (requestId (client st))\<rparr>)
               (Suc (requestId (client st))) m p)]\<rparr>)"
proof -
  have "fetch (demoEnv srv rs) (world st)
          (httpRequest ((client st)\<lparr>requestId := Suc (requestId (client st))\<rparr>)
               (Suc (requestId (client st))) m p)
        = (Inr (srv (body (httpRequest ((client st)\<lparr>requestId := Suc (requestId (client st))\<rparr>)
               (Suc (requestId (client st))) m p))), world st)"
    by (rule demo_fetch)
  from request_eq [OF this] show ?thesis by (simp add: httpRequest_def)
qed

lemma parse_not_found:
  \<open>demoParse ''{"error":{"code":-32601,"message":"Error -32601"}}'' =
     Inr (JObj [(''error'', JObj [(''code'', JNum (- 32601)), (''message'', JStr ''Error -32601'')])])\<close>
  by (simp add: demoParse_def demoTable_def)

lemma parse_internal:
  \<open>demoParse ''{"error":{"code":-32603,"message":"Internal error"}}'' =
     Inr (JObj [(''error'', JObj [(''code'', JNum (- 32603)), (''message'', JStr ''Internal error'')])])\<close>
  by (simp add: demoParse_def demoTable_def)

lemma parse_catalog:
  \<open>demoParse ''{"result":{"tools":[{"name":"getResourceSchedule"}]}}'' =
     Inr (JObj [(''result'', JObj [(''tools'', JArr [JObj [(''name'', JStr ''getResourceSchedule'')]])])])\<close>
  by (simp add: demoParse_def demoTable_def)

lemma parse_empty_catalog:
  \<open>demoParse ''{"result":{"tools":[]}}'' = Inr (JObj [(''result'', JObj [(''tools'', JArr [])])])\<close>
  by (simp add: demoParse_def demoTable_def)

lemma error_requests:
  "fst (request (demoEnv errorServer rs) ''tools/list'' (withServer [] None) st) = Inl (Error ''Error -32601'')"
  "fst (request (demoEnv errorServer rs) ''resources/list'' (withServer [] None) st) = Inl (Error ''Internal error'')"
  by (simp_all add: demo_request errorServer_def decode_json [OF parse_not_found]
        decode_json [OF parse_internal] envelope_def errorText_def)

text \<open>
  On a server that answers \<open>tools/list\<close> with a JSON-RPC error whose message contains
  \<open>-32601\<close> and \<open>resources/list\<close> with the message \<open>Internal error\<close>, the first listing is
  empty and the second throws \<open>Internal error\<close>; on a server that answers with status
  500, both listings throw the error of the status.
\<close>

theorem listTools_degrades_iff_marker_witness:
  "fst (listTools (demoEnv errorServer toolThenText) None demoState) = Inr (JObj [(''tools'', JArr [])])
   \<and> fst (listResources (demoEnv errorServer toolThenText) None demoState) = Inl (Error ''Internal error'')
   \<and> fst (listTools (demoEnv failingServer toolThenText) None demoState)
        = Inl (Error ''HTTP error! status: 500'')
   \<and> fst (listResources (demoEnv failingServer toolThenText) None demoState)
        = Inl (Error ''HTTP error! status: 500'')"
proof -
  let ?E = "demoEnv errorServer toolThenText"
  let ?F = "demoEnv failingServer toolThenText"
  obtain st1 where 1: "request ?E ''tools/list'' (withServer [] None) demoState = (Inl (Error ''Error -32601''), st1)"
    using error_requests(1) [of toolThenText demoState]
    by (cases "request ?E ''tools/list'' (withServer [] None) demoState") simp
  obtain st2 where 2: "request ?E ''resources/list'' (withServer [] None) demoState = (Inl (Error ''Internal error''), st2)"
    using error_requests(2) [of toolThenText demoState]
    by (cases "request ?E ''resources/list'' (withServer [] None) demoState") simp
  obtain st3 where 3: "request ?F ''tools/list'' (withServer [] None) demoState
                         = (Inl (Error (''HTTP error! status: '' @ show_nat 500)), st3)"
    by (cases "request ?F ''tools/list'' (withServer [] None) demoState")
       (simp add: demo_request failing_decode show_500)
  obtain st4 where 4: "request ?F ''resources/list'' (withServer [] None) demoState
                         = (Inl (Error (''HTTP error! status: '' @ show_nat 500)), st4)"
    by (cases "request ?F ''resources/list'' (withServer [] None) demoState")
       (simp add: demo_request failing_decode show_500)
  have a: "listTools ?E None demoState =
        (if includes_str (errorMessage (Error ''Error -32601'')) ''not available''
            \<or> includes_str (errorMessage (Error ''Error -32601'')) ''Method''
            \<or> includes_str (errorMessage (Error ''Error -32601'')) ''-32601''
         then Inr (JObj [(''tools'', JArr [])]) else Inl (Error ''Error -32601''), st1)"
    using listTools_degrades_iff_marker [of ?E None demoState "Error ''Error -32601''" st1] 1 by blast
  have b: "listResources ?E None demoState =
        (if includes_str (errorMessage (Error ''Internal error'')) ''not available''
            \<or> includes_str (errorMessage (Error ''Internal error'')) ''Method''
            \<or> includes_str (errorMessage (Error ''Internal error'')) ''-32601''
         then Inr (JObj [(''resources'', JArr [])]) else Inl (Error ''Internal error''), st2)"
    using listTools_degrades_iff_marker [of ?E None demoState "Error ''Internal error''" st2] 2 by blast
  have c: "listTools ?F None demoState = (Inl (Error (''HTTP error! status: '' @ show_nat 500)), st3)"
    using listTools_degrades_iff_marker [of ?F None demoState _ st3 500] 3 by blast
  have d: "listResources ?F None demoState = (Inl (Error (''HTTP error! status: '' @ show_nat 500)), st4)"
    using listTools_degrades_iff_marker [of ?F None demoState _ st4 500] 4 by blast
  from a b c d show ?thesis by (simp add: startsWith_def show_500)
qed

text \<open>
  The claim as it is stated fails: the empty result is not reserved to JSON-RPC errors.
  A server that answers \<open>tools/list\<close> with status 200 and the plain text
  \<open>Method Not Allowed\<close> makes the parsing of the body fail, and the message of that
  failure contains \<open>Method\<close>: \<open>listTools\<close> returns the empty list.
\<close>

theorem parse_error_degrades_counterexample:
  "parseBody (demoEnv plainServer toolThenText) ''Method Not Allowed'' =
     Inl (Error ''Failed to parse response as JSON: Method Not Allowed'')
   \<and> fst (request (demoEnv plainServer toolThenText) ''tools/list'' (withServer [] None) demoState) =
       Inl (Error ''Failed to parse response as JSON: Method Not Allowed'')
   \<and> fst (listTools (demoEnv plainServer toolThenText) None demoState) = Inr (JObj [(''tools'', JArr [])])"
  by (simp add: listTools_def demo_request plain_decode notFoundShaped_def startsWith_def)


section \<open>The tool-call loop\<close>

lemma modelRequests_append: "modelRequests (xs @ ys) = modelRequests xs @ modelRequests ys"
  by (induction xs rule: modelRequests.induct) auto

lemma request_frame:
  "arrays (snd (request E m p st)) = arrays st \<and>
   modelRequests (sent (snd (request E m p st))) = modelRequests (sent st)"
proof -
  obtain answer w where "fetch E (world st)
             (httpRequest ((client st)\<lparr>requestId := Suc (requestId (client st))\<rparr>)
                (Suc (requestId (client st))) m p) = (answer, w)"
    by (rule prod.exhaust)
  from request_eq [OF this] show ?thesis by (simp add: modelRequests_append)
qed

lemma executeToolCall_frame:
  "arrays (snd (executeToolCall E svc n args st)) = arrays st \<and>
   modelRequests (sent (snd (executeToolCall E svc n args st))) = modelRequests (sent st)"
  by (simp add: executeToolCall_def callTool_def request_frame)

lemma executeToolCalls_function:
  assumes "executeToolCall E svc n (case parse E s of Inr v \<Rightarrow> v | Inl e \<Rightarrow> JObj []) st = (outcome, st1)"
  shows "executeToolCalls E svc (FunctionToolCall i n s # rest) (tcs, tcrs, st) =
           executeToolCalls E svc rest
             (tcs @ [\<lparr>tc_id = i, tc_name = n,
                       tc_arguments = (case parse E s of Inr v \<Rightarrow> v | Inl e \<Rightarrow> JObj [])\<rparr>],
              tcrs @ [(case outcome of
                         Inr r \<Rightarrow> \<lparr>toolCallId = i, result = r\<rparr>
                       | Inl e \<Rightarrow> \<lparr>toolCallId = i, result = thrownToResult e\<rparr>)],
              st1)"
  using assms by (simp add: Let_def)

lemma executeToolCalls_props:
  "executeToolCalls E svc calls (tcs, tcrs, st) = (tcs', tcrs', st') \<Longrightarrow>
     arrays st' = arrays st \<and> modelRequests (sent st') = modelRequests (sent st) \<and>
     map tc_id tcs' = map tc_id tcs @ functionIds calls \<and>
     map toolCallId tcrs' = map toolCallId tcrs @ functionIds calls"
proof (induction calls arbitrary: tcs tcrs st)
  case Nil
  then show ?case by simp
next
  case (Cons c calls)
  show ?case
  proof (cases c)
    case (CustomToolCall i)
    with Cons.prems have "executeToolCalls E svc calls (tcs, tcrs, st) = (tcs', tcrs', st')" by simp
    from Cons.IH [OF this] CustomToolCall show ?thesis by simp
  next
    case (FunctionToolCall i n s)
    obtain outcome st1 where
      x: "executeToolCall E svc n (case parse E s of Inr v \<Rightarrow> v | Inl e \<Rightarrow> JObj []) st = (outcome, st1)"
      by (rule prod.exhaust)
    from executeToolCall_frame [of E svc n _ st] x
    have f: "arrays st1 = arrays st" "modelRequests (sent st1) = modelRequests (sent st)"
      by (metis snd_conv)+
    from Cons.prems FunctionToolCall executeToolCalls_function [OF x]
    have "executeToolCalls E svc calls
             (tcs @ [\<lparr>tc_id = i, tc_name = n,
                       tc_arguments = (case parse E s of Inr v \<Rightarrow> v | Inl e \<Rightarrow> JObj [])\<rparr>],
              tcrs @ [(case outcome of
                         Inr r \<Rightarrow> \<lparr>toolCallId = i, result = r\<rparr>
                       | Inl e \<Rightarrow> \<lparr>toolCallId = i, result = thrownToResult e\<rparr>)],
              st1) = (tcs', tcrs', st')"
      by simp
    from Cons.IH [OF this] f FunctionToolCall show ?thesis
      by (cases outcome) simp_all
  qed
qed

lemma executeToolCalls_append:
  "executeToolCalls E svc (xs @ ys) acc = executeToolCalls E svc ys (executeToolCalls E svc xs acc)"
proof (induction xs arbitrary: acc)
  case Nil
  show ?case by simp
next
  case (Cons c xs)
  obtain tcs tcrs st where acc: "acc = (tcs, tcrs, st)" by (cases acc)
  show ?case
  proof (cases c)
    case (CustomToolCall i)
    then show ?thesis using Cons.IH by simp
  next
    case (FunctionToolCall i n s)
    obtain outcome st1 where
      x: "executeToolCall E svc n (case parse E s of Inr v \<Rightarrow> v | Inl e \<Rightarrow> JObj []) st = (outcome, st1)"
      by (rule prod.exhaust)
    show ?thesis
      unfolding acc FunctionToolCall append_Cons executeToolCalls_function [OF x]
      by (rule Cons.IH)
  qed
qed

lemma sentCalls_append: "sentCalls (xs @ ys) = sentCalls xs @ sentCalls ys"
  by (induction xs rule: sentCalls.induct) auto

lemma recordedCalls_append: "recordedCalls E (xs @ ys) = recordedCalls E xs @ recordedCalls E ys"
  by (induction xs rule: recordedCalls.induct) auto

lemma request_sentCalls:
  "sentCalls (sent (snd (request E m p st))) = sentCalls (sent st) @ [(m, p)]"
proof -
  obtain answer w where "fetch E (world st)
             (httpRequest ((client st)\<lparr>requestId := Suc (requestId (client st))\<rparr>)
                (Suc (requestId (client st))) m p) = (answer, w)"
    by (rule prod.exhaust)
  from request_eq [OF this] show ?thesis by (simp add: sentCalls_append httpRequest_def)
qed

lemma executeToolCall_sentCalls:
  assumes "mcpClient svc"
  shows "sentCalls (sent (snd (executeToolCall E svc n args st))) =
           sentCalls (sent st) @ [(''tools/call'', JObj [(''name'', JStr n), (''arguments'', args)])]"
  using assms by (simp add: executeToolCall_def callTool_def request_sentCalls withServer_def)

lemma executeToolCalls_record:
  "executeToolCalls E svc calls (tcs, tcrs, st) = (tcs', tcrs', st') \<Longrightarrow>
     tcs' = tcs @ recordedCalls E calls \<and> set tcrs \<subseteq> set tcrs' \<and>
     (mcpClient svc \<longrightarrow>
        sentCalls (sent st') = sentCalls (sent st) @ map callRequest (recordedCalls E calls))"
proof (induction calls arbitrary: tcs tcrs st)
  case Nil
  then show ?case by simp
next
  case (Cons c calls)
  show ?case
  proof (cases c)
    case (CustomToolCall i)
    with Cons.prems have "executeToolCalls E svc calls (tcs, tcrs, st) = (tcs', tcrs', st')" by simp
    from Cons.IH [OF this] CustomToolCall show ?thesis by simp
  next
    case (FunctionToolCall i n s)
    let ?args = "case parse E s of Inr v \<Rightarrow> v | Inl e \<Rightarrow> JObj []"
    obtain outcome st1 where x: "executeToolCall E svc n ?args st = (outcome, st1)"
      by (rule prod.exhaust)
    have s1: "mcpClient svc \<longrightarrow> sentCalls (sent st1) =
                sentCalls (sent st) @ [(''tools/call'', JObj [(''name'', JStr n), (''arguments'', ?args)])]"
      using executeToolCall_sentCalls [of svc E n ?args st] x by simp
    from Cons.prems FunctionToolCall executeToolCalls_function [OF x]
    have "executeToolCalls E svc calls
             (tcs @ [\<lparr>tc_id = i, tc_name = n, tc_arguments = ?args\<rparr>],
              tcrs @ [(case outcome of
                         Inr r \<Rightarrow> \<lparr>toolCallId = i, result = r\<rparr>
                       | Inl e \<Rightarrow> \<lparr>toolCallId = i, result = thrownToResult e\<rparr>)],
              st1) = (tcs', tcrs', st')"
      by simp
    from Cons.IH [OF this] s1 FunctionToolCall show ?thesis
      by (auto simp: callRequest_def)
  qed
qed

lemma thrownToResult_eq:
  "thrownToResult err = JObj [(''error'', JStr (case err of Error msg \<Rightarrow> msg | NonError v \<Rightarrow> ''Unknown error''))]"
  by (cases err) simp_all

section \<open>One round of chat\<close>

lemma chatRound_eq:
  assumes "openai svc" and "a < length (arrays st)"
      and "complete E (world st)
             (completionRequest svc (toWire E (withSystemContext E (world st) (arrays st ! a)) []))
           = (response, w)"
  shows "chatRound E svc a st =
           (case response of
              Inl e \<Rightarrow> (Inl e, afterModelCall E svc a w st)
            | Inr None \<Rightarrow> (Inl (Error ''No response from OpenAI''), afterModelCall E svc a w st)
            | Inr (Some m) \<Rightarrow> handleReply E svc a m (afterModelCall E svc a w st))"
proof -
  have "chatRound E svc a st =
          (case response of
              Inl e \<Rightarrow> (Inl e, afterModelCall E svc a w st)
            | Inr None \<Rightarrow> (Inl (Error ''No response from OpenAI''), afterModelCall E svc a w st)
            | Inr (Some m) \<Rightarrow> handleReply E svc a m (afterModelCall E svc a w st))"
    if "response = r" for r
  proof (cases "hasSystemMessage (arrays st ! a)")
    case True
    show ?thesis
    proof (cases r)
      case (Inl e)
      with True that assms show ?thesis
        unfolding chatRound_def newArray_def push_def afterModelCall_def withSystemContext_def
        by (simp add: Let_def nth_append)
    next
      case (Inr v)
      with True that assms show ?thesis
        unfolding chatRound_def newArray_def push_def afterModelCall_def withSystemContext_def
        by (cases v) (simp_all add: Let_def nth_append)
    qed
  next
    case False
    show ?thesis
    proof (cases r)
      case (Inl e)
      with False that assms show ?thesis
        unfolding chatRound_def newArray_def push_def afterModelCall_def withSystemContext_def
        by (simp add: Let_def nth_append)
    next
      case (Inr v)
      with False that assms show ?thesis
        unfolding chatRound_def newArray_def push_def afterModelCall_def withSystemContext_def
        by (cases v) (simp_all add: Let_def nth_append)
    qed
  qed
  then show ?thesis by simp
qed

lemma toolRun_props:
  assumes "(case tool_calls m of
              None \<Rightarrow> ([], [], st)
            | Some calls \<Rightarrow> executeToolCalls E svc calls ([], [], st)) = (tcs, tcrs, st')"
  shows "arrays st' = arrays st" and "modelRequests (sent st') = modelRequests (sent st)"
    and "map toolCallId tcrs = map tc_id tcs"
proof -
  show "arrays st' = arrays st"
    using assms executeToolCalls_props [of E svc _ "[]" "[]" st tcs tcrs st']
    by (cases "tool_calls m") auto
  show "modelRequests (sent st') = modelRequests (sent st)"
    using assms executeToolCalls_props [of E svc _ "[]" "[]" st tcs tcrs st']
    by (cases "tool_calls m") auto
  show "map toolCallId tcrs = map tc_id tcs"
    using assms executeToolCalls_props [of E svc _ "[]" "[]" st tcs tcrs st']
    by (cases "tool_calls m") auto
qed

lemma handleReply_eq:
  assumes "(case tool_calls m of
              None \<Rightarrow> ([], [], st)
            | Some calls \<Rightarrow> executeToolCalls E svc calls ([], [], st)) = (tcs, tcrs, st')"
  shows "handleReply E svc a m st =
           (if tcs \<noteq> []
            then (Inr (Recurse (length (arrays st))),
                  st'\<lparr>arrays := arrays st @
                     [arrays st ! a @
                        [\<lparr>role = Assistant,
                          content = (case reply_content m of None \<Rightarrow> [] | Some c \<Rightarrow> c),
                          toolCalls = Some tcs, toolCallResults = Some tcrs\<rparr>]]\<rparr>)
            else (Inr (Return \<lparr>role = Assistant,
                               content = (case reply_content m of None \<Rightarrow> [] | Some c \<Rightarrow> c),
                               toolCalls = None, toolCallResults = None\<rparr>), st'))"
proof -
  have len: "length tcrs = length tcs"
    using toolRun_props(3) [OF assms] by (metis length_map)
  show ?thesis
    using assms toolRun_props(1) [OF assms] len
    unfolding handleReply_def newArray_def
    by (simp add: Let_def)
qed

lemma chatRound_cases:
  assumes "chatRound E svc a st = (out, st')"
  shows "(\<exists>e. out = Inl e) \<or> (\<exists>m st4. handleReply E svc a m st4 = (out, st'))"
  using assms unfolding chatRound_def Let_def
  by (auto split: if_splits prod.splits sum.splits option.splits)

lemma handleReply_Return:
  assumes "handleReply E svc a m st = (Inr (Return r), st')"
  shows "r = \<lparr>role = Assistant, content = (case reply_content m of None \<Rightarrow> [] | Some c \<Rightarrow> c),
               toolCalls = None, toolCallResults = None\<rparr>"
proof -
  obtain tcs tcrs st1 where
    run: "(case tool_calls m of
              None \<Rightarrow> ([], [], st)
            | Some calls \<Rightarrow> executeToolCalls E svc calls ([], [], st)) = (tcs, tcrs, st1)"
    by (rule prod_cases3)
  from assms handleReply_eq [OF run, of a] show ?thesis
    by (cases "tcs = []") simp_all
qed

lemma chatRound_Return:
  assumes "chatRound E svc a st = (Inr (Return r), st')"
  shows "toolCalls r = None \<and> toolCallResults r = None \<and> role r = Assistant"
proof -
  from chatRound_cases [OF assms] obtain m st4
    where "handleReply E svc a m st4 = (Inr (Return r), st')" by auto
  from handleReply_Return [OF this] show ?thesis by simp
qed

lemma toWire_acc: "toWire E ms acc = acc @ toWire E ms []"
proof (induction ms arbitrary: acc)
  case Nil
  show ?case by simp
next
  case (Cons m ms)
  have "toWire E (m # ms) acc = (acc @ wireOf E m) @ toWire E ms []"
    using Cons.IH [of "acc @ wireOf E m"] by simp
  also have "\<dots> = acc @ toWire E (m # ms) []"
    using Cons.IH [of "wireOf E m"] by simp
  finally show ?case .
qed

lemma toWire_system:
  "toWire E (getSystemContextMessage E w # ms) [] =
     SystemParam (content (getSystemContextMessage E w)) # toWire E ms []"
proof -
  have "wireOf E (getSystemContextMessage E w) = [SystemParam (content (getSystemContextMessage E w))]"
    by (simp add: wireOf_def getSystemContextMessage_def Let_def case_prod_beta)
  then show ?thesis
    using toWire_acc [of E ms "wireOf E (getSystemContextMessage E w)"] by simp
qed

lemma chatRound_outcome:
  assumes o: "openai svc" and v: "a < length (arrays st)"
      and r: "chatRound E svc a st = (out, st')"
  shows "modelRequests (sent st') = modelRequests (sent st) @
           [completionRequest svc (toWire E (withSystemContext E (world st) (arrays st ! a)) [])]"
    and "(\<exists>e. out = Inl e \<and> arrays st' = arrays st @ [withSystemContext E (world st) (arrays st ! a)])
       \<or> (\<exists>txt. out = Inr (Return \<lparr>role = Assistant, content = txt, toolCalls = None,
                                      toolCallResults = None\<rparr>)
               \<and> arrays st' = arrays st @ [withSystemContext E (world st) (arrays st ! a)])
       \<or> (\<exists>txt tcs tcrs. out = Inr (Recurse (Suc (length (arrays st)))) \<and> tcs \<noteq> []
               \<and> map toolCallId tcrs = map tc_id tcs
               \<and> arrays st' = arrays st @
                    [withSystemContext E (world st) (arrays st ! a),
                     arrays st ! a @ [\<lparr>role = Assistant, content = txt, toolCalls = Some tcs,
                                       toolCallResults = Some tcrs\<rparr>]])"
proof -
  let ?wsc = "withSystemContext E (world st) (arrays st ! a)"
  let ?req = "completionRequest svc (toWire E ?wsc [])"
  obtain response w where c: "complete E (world st) ?req = (response, w)" by (rule prod.exhaust)
  let ?st4 = "afterModelCall E svc a w st"
  note eq = chatRound_eq [OF o v c]
  have s4: "modelRequests (sent ?st4) = modelRequests (sent st) @ [?req]"
    by (simp add: afterModelCall_def modelRequests_append)
  have a4: "arrays ?st4 = arrays st @ [?wsc]"
    by (simp add: afterModelCall_def)
  have both: "modelRequests (sent st') = modelRequests (sent st) @ [?req] \<and>
    ((\<exists>e. out = Inl e \<and> arrays st' = arrays st @ [?wsc])
       \<or> (\<exists>txt. out = Inr (Return \<lparr>role = Assistant, content = txt, toolCalls = None,
                                      toolCallResults = None\<rparr>)
               \<and> arrays st' = arrays st @ [?wsc])
       \<or> (\<exists>txt tcs tcrs. out = Inr (Recurse (Suc (length (arrays st)))) \<and> tcs \<noteq> []
               \<and> map toolCallId tcrs = map tc_id tcs
               \<and> arrays st' = arrays st @
                    [?wsc,
                     arrays st ! a @ [\<lparr>role = Assistant, content = txt, toolCalls = Some tcs,
                                       toolCallResults = Some tcrs\<rparr>]]))"
  proof (cases response)
    case (Inl e)
    with eq r s4 a4 show ?thesis by auto
  next
    case (Inr v)
    show ?thesis
    proof (cases v)
      case None
      with Inr eq r s4 a4 show ?thesis by auto
    next
      case (Some m)
      obtain tcs tcrs st5 where
        run: "(case tool_calls m of
                 None \<Rightarrow> ([], [], ?st4)
               | Some calls \<Rightarrow> executeToolCalls E svc calls ([], [], ?st4)) = (tcs, tcrs, st5)"
        by (rule prod_cases3)
      note p = toolRun_props [OF run]
      from Some Inr eq r have h: "handleReply E svc a m ?st4 = (out, st')" by simp
      show ?thesis
      proof (cases "tcs = []")
        case True
        with h handleReply_eq [OF run, of a] p s4 a4 show ?thesis by auto
      next
        case False
        with h handleReply_eq [OF run, of a] p s4 a4 v show ?thesis
          by (auto simp: nth_append)
      qed
    qed
  qed
  from both show "modelRequests (sent st') = modelRequests (sent st) @ [?req]" by blast
  from both show "(\<exists>e. out = Inl e \<and> arrays st' = arrays st @ [?wsc])
       \<or> (\<exists>txt. out = Inr (Return \<lparr>role = Assistant, content = txt, toolCalls = None,
                                      toolCallResults = None\<rparr>)
               \<and> arrays st' = arrays st @ [?wsc])
       \<or> (\<exists>txt tcs tcrs. out = Inr (Recurse (Suc (length (arrays st)))) \<and> tcs \<noteq> []
               \<and> map toolCallId tcrs = map tc_id tcs
               \<and> arrays st' = arrays st @
                    [?wsc,
                     arrays st ! a @ [\<lparr>role = Assistant, content = txt, toolCalls = Some tcs,
                                       toolCallResults = Some tcrs\<rparr>]])" by blast
qed

lemma chatRound_closed:
  assumes "\<not> openai svc"
  shows "chatRound E svc a st = (Inl (Error ''OpenAI client not initialized''), st)"
  using assms by (simp add: chatRound_def)

lemma chatRound_grows:
  assumes v: "a < length (arrays st)" and r: "chatRound E svc a st = (out, st')"
  shows "\<exists>new wires. arrays st' = arrays st @ new \<and>
           modelRequests (sent st') = modelRequests (sent st) @ map (completionRequest svc) wires \<and>
           (\<forall>u. out = Inr (Recurse u) \<longrightarrow> u < length (arrays st'))"
proof (cases "openai svc")
  case False
  from chatRound_closed [OF False, of E a st] r have "st' = st" "out = Inl (Error ''OpenAI client not initialized'')"
    by simp_all
  then have "arrays st' = arrays st @ [] \<and>
           modelRequests (sent st') = modelRequests (sent st) @ map (completionRequest svc) [] \<and>
           (\<forall>u. out = Inr (Recurse u) \<longrightarrow> u < length (arrays st'))" by simp
  then show ?thesis by blast
next
  case True
  note oc = chatRound_outcome [OF True v r]
  let ?w = "toWire E (withSystemContext E (world st) (arrays st ! a)) []"
  have m: "modelRequests (sent st') = modelRequests (sent st) @ map (completionRequest svc) [?w]"
    using oc(1) by simp
  from oc(2) have "\<exists>new. arrays st' = arrays st @ new \<and> (\<forall>u. out = Inr (Recurse u) \<longrightarrow> u < length (arrays st'))"
    by auto
  with m show ?thesis by blast
qed

lemma chat_grows:
  assumes "chat E svc a st = Some (res, st')" and "a < length (arrays st)"
  shows "\<exists>new wires. arrays st' = arrays st @ new \<and>
           modelRequests (sent st') = modelRequests (sent st) @ map (completionRequest svc) wires"
proof -
  have "a < length (arrays st) \<longrightarrow>
          (\<exists>new wires. arrays (snd y) = arrays st @ new \<and>
             modelRequests (sent (snd y)) = modelRequests (sent st) @ map (completionRequest svc) wires)"
    if "chat E svc a st = Some y" for y
  proof (rule chat.raw_induct [where P = "\<lambda>E svc a st y. a < length (arrays st) \<longrightarrow>
          (\<exists>new wires. arrays (snd y) = arrays st @ new \<and>
             modelRequests (sent (snd y)) = modelRequests (sent st) @ map (completionRequest svc) wires)",
          OF _ that])
    fix chat' :: "'a env \<Rightarrow> AIService \<Rightarrow> nat \<Rightarrow> 'a state \<Rightarrow> ((thrown + ChatMessage) \<times> 'a state) option"
    fix E svc a st y
    assume IH: "\<And>E svc a st y. chat' E svc a st = Some y \<Longrightarrow>
                  a < length (arrays st) \<longrightarrow>
          (\<exists>new wires. arrays (snd y) = arrays st @ new \<and>
             modelRequests (sent (snd y)) = modelRequests (sent st) @ map (completionRequest svc) wires)"
    assume step: "(case chatRound E svc a st of
                     (Inl e, st') \<Rightarrow> Some (Inl e, st')
                   | (Inr (Return m), st') \<Rightarrow> Some (Inr m, st')
                   | (Inr (Recurse u), st') \<Rightarrow> chat' E svc u st') = Some y"
    obtain out st1 where r: "chatRound E svc a st = (out, st1)" by (rule prod.exhaust)
    show "a < length (arrays st) \<longrightarrow>
          (\<exists>new wires. arrays (snd y) = arrays st @ new \<and>
             modelRequests (sent (snd y)) = modelRequests (sent st) @ map (completionRequest svc) wires)"
    proof
      assume v: "a < length (arrays st)"
      from chatRound_grows [OF v r] obtain new1 wires1 where
        g: "arrays st1 = arrays st @ new1"
           "modelRequests (sent st1) = modelRequests (sent st) @ map (completionRequest svc) wires1"
           "\<forall>u. out = Inr (Recurse u) \<longrightarrow> u < length (arrays st1)"
        by blast
      show "\<exists>new wires. arrays (snd y) = arrays st @ new \<and>
             modelRequests (sent (snd y)) = modelRequests (sent st) @ map (completionRequest svc) wires"
      proof (cases out)
        case (Inl e)
        with r step have "snd y = st1" by auto
        with g show ?thesis by blast
      next
        case (Inr rnd)
        show ?thesis
        proof (cases rnd)
          case (Return msg)
          with Inr r step have "snd y = st1" by auto
          with g show ?thesis by blast
        next
          case (Recurse u)
          with Inr r step have c: "chat' E svc u st1 = Some y" by simp
          from g(3) Inr Recurse have "u < length (arrays st1)" by simp
          with IH [OF c] obtain new2 wires2 where
            "arrays (snd y) = arrays st1 @ new2"
            "modelRequests (sent (snd y)) = modelRequests (sent st1) @ map (completionRequest svc) wires2"
            by blast
          with g have "arrays (snd y) = arrays st @ (new1 @ new2) \<and>
              modelRequests (sent (snd y)) = modelRequests (sent st) @ map (completionRequest svc) (wires1 @ wires2)"
            by simp
          then show ?thesis by blast
        qed
      qed
    qed
  qed
  from this [OF assms(1)] assms(2) show ?thesis by simp
qed

lemma hasSystemMessage_snoc:
  "hasSystemMessage (ms @ [\<lparr>role = Assistant, content = c, toolCalls = x, toolCallResults = y\<rparr>])
     = hasSystemMessage ms"
  by (cases ms) (simp_all add: hasSystemMessage_def)

section \<open>The example conversation\<close>

lemma failing_call:
  "executeToolCall (demoEnv failingServer r) new_AIService n args st =
     (Inl (Error ''HTTP error! status: 500''),
      st\<lparr>world := world st,
         client := (client st)\<lparr>requestId := Suc (requestId (client st))\<rparr>,
         sent := sent st @ [HttpRequest
            (httpRequest ((client st)\<lparr>requestId := Suc (requestId (client st))\<rparr>)
               (Suc (requestId (client st))) ''tools/call''
               (withServer [(''name'', JStr n), (''arguments'', args)] None))]\<rparr>)"
proof -
  have "fetch (demoEnv failingServer r) (world st)
          (httpRequest ((client st)\<lparr>requestId := Suc (requestId (client st))\<rparr>)
               (Suc (requestId (client st))) ''tools/call''
               (withServer [(''name'', JStr n), (''arguments'', args)] None))
        = (Inr (failingServer (body (httpRequest ((client st)\<lparr>requestId := Suc (requestId (client st))\<rparr>)
               (Suc (requestId (client st))) ''tools/call''
               (withServer [(''name'', JStr n), (''arguments'', args)] None)))), world st)"
    by (rule demo_fetch)
  from request_eq [OF this] show ?thesis
    unfolding executeToolCall_def callTool_def new_AIService_def
    by (simp add: failing_decode)
qed

lemma demo_args: \<open>(case demoParse ''{"resourceId":"X"}'' of Inr v \<Rightarrow> v | Inl e \<Rightarrow> JObj [])
                  = JObj [(''resourceId'', JStr ''X'')]\<close>
  by (simp add: demoParse_def demoTable_def)

lemma demo_round1:
  "fst (chatRound demoE new_AIService 0 demoState) = Inr (Recurse 2)"
  "world (snd (chatRound demoE new_AIService 0 demoState)) = 1"
  "arrays (snd (chatRound demoE new_AIService 0 demoState)) = 
     [[demoQuestion], 
      [getSystemContextMessage demoE 0, demoQuestion],
      [demoQuestion, demoToolMessage]]"
proof -
  let ?m = "\<lparr>reply_content = None,
             tool_calls = Some [FunctionToolCall ''call_1'' ''getResourceSchedule'' ''{\"resourceId\":\"X\"}'']\<rparr>"
  have o: "openai new_AIService" by (simp add: new_AIService_def)
  have v: "0 < length (arrays demoState)" by (simp add: demoState_def)
  have c: "complete demoE (world demoState)
             (completionRequest new_AIService
                (toWire demoE (withSystemContext demoE (world demoState) (arrays demoState ! 0)) []))
           = (Inr (Some ?m), 1)"
    by (simp add: demoE_def demo_complete demoState_def toolThenText_def)
  have r: "chatRound demoE new_AIService 0 demoState =
             handleReply demoE new_AIService 0 ?m (afterModelCall demoE new_AIService 0 1 demoState)"
    using chatRound_eq [OF o v c] by simp
  let ?st4 = "afterModelCall demoE new_AIService 0 1 demoState"
  obtain st5 where x: "executeToolCall demoE new_AIService ''getResourceSchedule''
            (case parse demoE ''{\"resourceId\":\"X\"}'' of Inr v \<Rightarrow> v | Inl e \<Rightarrow> JObj []) ?st4
          = (Inl (Error ''HTTP error! status: 500''), st5)"
       and a5: "arrays st5 = arrays ?st4" and w5: "world st5 = world ?st4"
    using failing_call [of toolThenText "''getResourceSchedule''" _ ?st4]
    by (simp add: demoE_def)
  have run: "(case tool_calls ?m of
                None \<Rightarrow> ([], [], ?st4)
              | Some calls \<Rightarrow> executeToolCalls demoE new_AIService calls ([], [], ?st4))
             = ([\<lparr>tc_id = ''call_1'', tc_name = ''getResourceSchedule'',
                         tc_arguments = JObj [(''resourceId'', JStr ''X'')]\<rparr>],
                [\<lparr>toolCallId = ''call_1'',
                               result = JObj [(''error'', JStr ''HTTP error! status: 500'')]\<rparr>],
                st5)"
    using executeToolCalls_function [OF x, of "''call_1''" "[]" "[]" "[]"] demo_args
    by (simp add: demoE_def demo_parse)
  have h: "chatRound demoE new_AIService 0 demoState =
             (Inr (Recurse (length (arrays ?st4))),
              st5\<lparr>arrays := arrays ?st4 @ [arrays ?st4 ! 0 @ [demoToolMessage]]\<rparr>)"
    using handleReply_eq [OF run, of 0] r by (simp add: demoToolMessage_def)
  have a4: "arrays ?st4 = [[demoQuestion], [getSystemContextMessage demoE 0, demoQuestion]]"
    by (simp add: afterModelCall_def demoState_def withSystemContext_def hasSystemMessage_def
                  demoQuestion_def)
  show "fst (chatRound demoE new_AIService 0 demoState) = Inr (Recurse 2)"
    using h a4 by simp
  show "world (snd (chatRound demoE new_AIService 0 demoState)) = 1"
    using h w5 by (simp add: afterModelCall_def)
  show "arrays (snd (chatRound demoE new_AIService 0 demoState)) = 
     [[demoQuestion], 
      [getSystemContextMessage demoE 0, demoQuestion],
      [demoQuestion, demoToolMessage]]"
    using h a4 by simp
qed

lemma demo_round2:
  assumes "world st = 1" and "arrays st = [[demoQuestion], 
      [getSystemContextMessage demoE 0, demoQuestion],
      [demoQuestion, demoToolMessage]]"
  shows "fst (chatRound demoE new_AIService 2 st) = Inr (Return demoAnswer)"
proof -
  let ?m = "\<lparr>reply_content = Some ''The schedule is unavailable.'', tool_calls = None\<rparr>"
  have o: "openai new_AIService" by (simp add: new_AIService_def)
  have v: "2 < length (arrays st)" using assms by simp
  have c: "complete demoE (world st)
             (completionRequest new_AIService
                (toWire demoE (withSystemContext demoE (world st) (arrays st ! 2)) []))
           = (Inr (Some ?m), 2)"
    using assms(1) by (simp add: demoE_def demo_complete toolThenText_def)
  have r: "chatRound demoE new_AIService 2 st =
             handleReply demoE new_AIService 2 ?m (afterModelCall demoE new_AIService 2 2 st)"
    using chatRound_eq [OF o v c] by simp
  have run: "(case tool_calls ?m of
                None \<Rightarrow> ([], [], afterModelCall demoE new_AIService 2 2 st)
              | Some calls \<Rightarrow> executeToolCalls demoE new_AIService calls
                                ([], [], afterModelCall demoE new_AIService 2 2 st))
             = ([], [], afterModelCall demoE new_AIService 2 2 st)"
    by simp
  show ?thesis
    using handleReply_eq [OF run, of 2] r by (simp add: demoAnswer_def)
qed

lemma demo_chat:
  "map_option fst (chat demoE new_AIService 0 demoState) = Some (Inr demoAnswer)"
proof -
  obtain st1 where r1: "chatRound demoE new_AIService 0 demoState = (Inr (Recurse 2), st1)"
    using demo_round1(1) by (cases "chatRound demoE new_AIService 0 demoState") simp
  with demo_round1(2,3) have s1: "world st1 = 1" "arrays st1 = [[demoQuestion], 
      [getSystemContextMessage demoE 0, demoQuestion],
      [demoQuestion, demoToolMessage]]"
    by simp_all
  obtain st2 where r2: "chatRound demoE new_AIService 2 st1 = (Inr (Return demoAnswer), st2)"
    using demo_round2 [OF s1] by (cases "chatRound demoE new_AIService 2 st1") simp
  have "chat demoE new_AIService 2 st1 = Some (Inr demoAnswer, st2)"
    by (subst chat.simps) (simp add: r2)
  then have "chat demoE new_AIService 0 demoState = Some (Inr demoAnswer, st2)"
    by (subst chat.simps) (simp add: r1)
  then show ?thesis by simp
qed

section \<open>The final message and the paired results\<close>

text \<open>
  Claim C10. Whenever a call of \<open>chat\<close> returns a message, that message carries neither
  \<open>toolCalls\<close> nor \<open>toolCallResults\<close>: a round that recorded a tool call recurses, and a
  round that recorded none has recorded no result either.
\<close>

theorem chat_final_message_text_only:
  assumes "chat E svc a st = Some (Inr m, st')"
  shows "toolCalls m = None \<and> toolCallResults m = None"
proof -
  have "\<forall>m st'. y = (Inr m, st') \<longrightarrow> toolCalls m = None \<and> toolCallResults m = None"
    if "chat E svc a st = Some y" for y
  proof (rule chat.raw_induct [where P = "\<lambda>E svc a st y.
            \<forall>m st'. y = (Inr m, st') \<longrightarrow> toolCalls m = None \<and> toolCallResults m = None", OF _ that])
    fix chat' :: "'a env \<Rightarrow> AIService \<Rightarrow> nat \<Rightarrow> 'a state \<Rightarrow> ((thrown + ChatMessage) \<times> 'a state) option"
    fix E svc a st y
    assume IH: "\<And>E svc a st y. chat' E svc a st = Some y \<Longrightarrow>
                  \<forall>m st'. y = (Inr m, st') \<longrightarrow> toolCalls m = None \<and> toolCallResults m = None"
    assume step: "(case chatRound E svc a st of
                     (Inl e, st') \<Rightarrow> Some (Inl e, st')
                   | (Inr (Return m), st') \<Rightarrow> Some (Inr m, st')
                   | (Inr (Recurse u), st') \<Rightarrow> chat' E svc u st') = Some y"
    obtain out st1 where r: "chatRound E svc a st = (out, st1)" by (rule prod.exhaust)
    show "\<forall>m st'. y = (Inr m, st') \<longrightarrow> toolCalls m = None \<and> toolCallResults m = None"
    proof (cases out)
      case (Inl e)
      with r step show ?thesis by auto
    next
      case (Inr rnd)
      show ?thesis
      proof (cases rnd)
        case (Return msg)
        with Inr r step chatRound_Return [of E svc a st msg st1] show ?thesis by auto
      next
        case (Recurse u)
        with Inr r step have "chat' E svc u st1 = Some y" by simp
        from IH [OF this] show ?thesis .
      qed
    qed
  qed
  with assms show ?thesis by blast
qed

text \<open>
  In the example conversation the model first asks for a tool and then answers in text;
  the message returned is that text, without tool calls and without tool results.
\<close>

theorem chat_final_message_text_only_witness:
  "chat demoE new_AIService 0 demoState =
     Some (Inr demoAnswer, snd (the (chat demoE new_AIService 0 demoState)))
   \<and> toolCalls demoAnswer = None \<and> toolCallResults demoAnswer = None"
proof -
  have h: "chat demoE new_AIService 0 demoState =
             Some (Inr demoAnswer, snd (the (chat demoE new_AIService 0 demoState)))"
    using demo_chat by (cases "chat demoE new_AIService 0 demoState") auto
  from chat_final_message_text_only [OF h] h show ?thesis by simp
qed

text \<open>
  Claim C8. Every assistant message that a round of \<open>chat\<close> constructs satisfies the
  invariant of the data model. The message returned carries no results; the message
  appended to the history before the recursive call carries one result per recorded
  call, with that call's id, in the order of the calls.
\<close>

theorem tool_results_reference_tool_calls:
  assumes "a < length (arrays st)" and "chatRound E svc a st = (Inr out, st')"
  shows "case out of
           Return m \<Rightarrow> role m = Assistant \<and> paired m
         | Recurse u \<Rightarrow>
             (\<exists>c tcs tcrs.
                arrays st' ! u = arrays st ! a @
                   [\<lparr>role = Assistant, content = c, toolCalls = Some tcs, toolCallResults = Some tcrs\<rparr>]
                \<and> map toolCallId tcrs = map tc_id tcs
                \<and> paired \<lparr>role = Assistant, content = c, toolCalls = Some tcs,
                           toolCallResults = Some tcrs\<rparr>)"
proof -
  have o: "openai svc"
    using assms(2) chatRound_closed [of svc E a st] by (cases "openai svc") auto
  note oc = chatRound_outcome [OF o assms]
  have p: "paired \<lparr>role = Assistant, content = c, toolCalls = Some tcs, toolCallResults = Some tcrs\<rparr>"
    if "map toolCallId tcrs = map tc_id tcs" for c tcs tcrs
  proof -
    have "set (map toolCallId tcrs) \<subseteq> set (map tc_id tcs)" using that by simp
    then show ?thesis by (auto simp: paired_def list_all_iff)
  qed
  from oc(2) show ?thesis
  proof (elim disjE exE conjE)
    fix e assume "Inr out = Inl e"
    then show ?thesis by simp
  next
    fix c
    assume "Inr out = Inr (Return \<lparr>role = Assistant, content = c, toolCalls = None,
                                      toolCallResults = None\<rparr>)"
    then show ?thesis by (auto simp add: paired_def)
  next
    fix c tcs tcrs
    assume 1: "Inr out = Inr (Recurse (Suc (length (arrays st))))"
       and 2: "map toolCallId tcrs = map tc_id tcs"
       and 3: "arrays st' = arrays st @
                    [withSystemContext E (world st) (arrays st ! a),
                     arrays st ! a @ [\<lparr>role = Assistant, content = c, toolCalls = Some tcs,
                                       toolCallResults = Some tcrs\<rparr>]]"
    from 1 have out: "out = Recurse (Suc (length (arrays st)))" by simp
    from 3 have "arrays st' ! Suc (length (arrays st)) =
                   arrays st ! a @ [\<lparr>role = Assistant, content = c, toolCalls = Some tcs,
                                       toolCallResults = Some tcrs\<rparr>]"
      by (simp add: nth_append)
    with out 2 p [OF 2] show ?thesis by auto
  qed
qed

text \<open>
  In the first round of the example conversation the appended message is the one with
  the call \<open>call_1\<close> and its result, and it satisfies the invariant.
\<close>

theorem tool_results_reference_tool_calls_witness:
  "arrays (snd (chatRound demoE new_AIService 0 demoState)) ! 2 = [demoQuestion, demoToolMessage]
   \<and> paired demoToolMessage"
proof -
  have v: "0 < length (arrays demoState)" by (simp add: demoState_def)
  have r: "chatRound demoE new_AIService 0 demoState =
             (Inr (Recurse 2), snd (chatRound demoE new_AIService 0 demoState))"
    using demo_round1(1) by (cases "chatRound demoE new_AIService 0 demoState") simp
  have n: "arrays (snd (chatRound demoE new_AIService 0 demoState)) ! 2 = [demoQuestion, demoToolMessage]"
    using demo_round1(3) by simp
  from tool_results_reference_tool_calls [OF v r] obtain c tcs tcrs where
    1: "arrays (snd (chatRound demoE new_AIService 0 demoState)) ! 2 = arrays demoState ! 0 @
          [\<lparr>role = Assistant, content = c, toolCalls = Some tcs, toolCallResults = Some tcrs\<rparr>]"
    and 2: "paired \<lparr>role = Assistant, content = c, toolCalls = Some tcs, toolCallResults = Some tcrs\<rparr>"
    by auto
  from 1 n have "demoToolMessage = \<lparr>role = Assistant, content = c, toolCalls = Some tcs, toolCallResults = Some tcrs\<rparr>"
    by (simp add: demoState_def)
  with 2 n show ?thesis by simp
qed

section \<open>The synthesized system message and the tool fields\<close>

lemma demo_chat_requests:
  "length (modelRequests (sent (snd (the (chat demoE new_AIService 0 demoState))))) = 2"
proof -
  have o: "openai new_AIService" by (simp add: new_AIService_def)
  have v: "0 < length (arrays demoState)" by (simp add: demoState_def)
  obtain st1 where r1: "chatRound demoE new_AIService 0 demoState = (Inr (Recurse 2), st1)"
    using demo_round1(1) by (cases "chatRound demoE new_AIService 0 demoState") simp
  with demo_round1(2,3) have s1: "world st1 = 1" "arrays st1 = [[demoQuestion],
      [getSystemContextMessage demoE 0, demoQuestion],
      [demoQuestion, demoToolMessage]]"
    by simp_all
  obtain st2 where r2: "chatRound demoE new_AIService 2 st1 = (Inr (Return demoAnswer), st2)"
    using demo_round2 [OF s1] by (cases "chatRound demoE new_AIService 2 st1") simp
  have v1: "2 < length (arrays st1)" using s1 by simp
  have "length (modelRequests (sent st1)) = 1"
    using chatRound_outcome(1) [OF o v r1] by (simp add: demoState_def)
  then have l: "length (modelRequests (sent st2)) = 2"
    using chatRound_outcome(1) [OF o v1 r2] by simp
  have "chat demoE new_AIService 2 st1 = Some (Inr demoAnswer, st2)"
    by (subst chat.simps) (simp add: r2)
  then have "chat demoE new_AIService 0 demoState = Some (Inr demoAnswer, st2)"
    by (subst chat.simps) (simp add: r1)
  with l show ?thesis by simp
qed

lemma includes_str_here: "includes_str (p @ b) p"
  unfolding includes_str_iff by (rule exI [of _ "[]"], rule exI [of _ b]) simp

lemma includes_str_later: "includes_str x p \<Longrightarrow> includes_str (a @ x) p"
proof -
  assume "includes_str x p"
  then obtain u v where "x = u @ p @ v" unfolding includes_str_iff by blast
  then have "a @ x = (a @ u) @ p @ v" by simp
  then show ?thesis unfolding includes_str_iff by blast
qed

lemma systemContext_clock:
  assumes "now E w = (dateTime, date, time)"
  shows "role (getSystemContextMessage E w) = System"
    and "includes_str (content (getSystemContextMessage E w)) dateTime"
    and "includes_str (content (getSystemContextMessage E w)) date"
    and "includes_str (content (getSystemContextMessage E w)) time"
proof -
  show "role (getSystemContextMessage E w) = System"
    by (simp add: getSystemContextMessage_def Let_def case_prod_beta)
  show "includes_str (content (getSystemContextMessage E w)) dateTime"
    unfolding getSystemContextMessage_def Let_def assms prod.case ChatMessage.select_convs
    by (intro includes_str_later includes_str_here)
  show "includes_str (content (getSystemContextMessage E w)) date"
    unfolding getSystemContextMessage_def Let_def assms prod.case ChatMessage.select_convs
    by (intro includes_str_later includes_str_here)
  show "includes_str (content (getSystemContextMessage E w)) time"
    unfolding getSystemContextMessage_def Let_def assms prod.case ChatMessage.select_convs
    by (intro includes_str_later includes_str_here)
qed

text \<open>
  Claim C5. In a round of \<open>chat\<close> on the history \<open>arrays st ! a\<close>, exactly one request is
  sent to the model, and its messages are the wire form of the history, preceded by the
  synthesized system message (a system message whose content carries the three renderings
  of the current date and time) exactly when the first entry of the history is not a
  system message. Every array that existed before the round, the caller's history among
  them, has the same contents after it, and after the whole call when it returns. The
  history of the recursive call is the caller's history followed by one assistant
  message, so it does not contain the synthesized message, and its first entry is a
  system message exactly when that of the caller's history is: the recursive call
  synthesizes the message again.
\<close>

theorem system_context_only_on_wire:
  assumes "openai svc" and "a < length (arrays st)" and "chatRound E svc a st = (out, st')"
  shows "modelRequests (sent st') = modelRequests (sent st) @
           [\<lparr>model = ''gpt-4-turbo-preview'',
             messages =
               (if (case arrays st ! a of [] \<Rightarrow> False | m # ms \<Rightarrow> role m = System)
                then toWire E (arrays st ! a) []
                else SystemParam (content (getSystemContextMessage E (world st)))
                       # toWire E (arrays st ! a) []),
             req_tools = (if tools svc = [] then None else Some (map toolToFunction (tools svc))),
             tool_choice = (if tools svc = [] then None else Some ''auto'')\<rparr>]
       \<and> role (getSystemContextMessage E (world st)) = System
       \<and> (case now E (world st) of
             (dateTime, date, time) \<Rightarrow>
               includes_str (content (getSystemContextMessage E (world st))) dateTime
               \<and> includes_str (content (getSystemContextMessage E (world st))) date
               \<and> includes_str (content (getSystemContextMessage E (world st))) time)
       \<and> take (length (arrays st)) (arrays st') = arrays st
       \<and> arrays st' ! a = arrays st ! a
       \<and> (\<forall>u. out = Inr (Recurse u) \<longrightarrow>
             (\<exists>amsg. arrays st' ! u = arrays st ! a @ [amsg] \<and> role amsg = Assistant)
             \<and> (case arrays st' ! u of [] \<Rightarrow> False | m # ms \<Rightarrow> role m = System)
                 = (case arrays st ! a of [] \<Rightarrow> False | m # ms \<Rightarrow> role m = System))
       \<and> (\<forall>res st''. chat E svc a st = Some (res, st'') \<longrightarrow>
             take (length (arrays st)) (arrays st'') = arrays st \<and> arrays st'' ! a = arrays st ! a)"
proof -
  note oc = chatRound_outcome [OF assms]
  have 1: "modelRequests (sent st') = modelRequests (sent st) @
           [\<lparr>model = ''gpt-4-turbo-preview'',
             messages =
               (if (case arrays st ! a of [] \<Rightarrow> False | m # ms \<Rightarrow> role m = System)
                then toWire E (arrays st ! a) []
                else SystemParam (content (getSystemContextMessage E (world st)))
                       # toWire E (arrays st ! a) []),
             req_tools = (if tools svc = [] then None else Some (map toolToFunction (tools svc))),
             tool_choice = (if tools svc = [] then None else Some ''auto'')\<rparr>]"
  proof (cases "hasSystemMessage (arrays st ! a)")
    case True
    with oc(1) True [unfolded hasSystemMessage_def] show ?thesis
      by (simp add: withSystemContext_def completionRequest_def mcpToolsToOpenAIFunctions_def Let_def)
  next
    case False
    with oc(1) False [unfolded hasSystemMessage_def] show ?thesis
      by (simp add: withSystemContext_def completionRequest_def mcpToolsToOpenAIFunctions_def Let_def
               toWire_system del: toWire.simps)
  qed
  obtain dateTime date time where n: "now E (world st) = (dateTime, date, time)"
    by (rule prod_cases3)
  have 2: "role (getSystemContextMessage E (world st)) = System"
    by (rule systemContext_clock(1) [OF n])
  have 3: "case now E (world st) of
             (dateTime, date, time) \<Rightarrow>
               includes_str (content (getSystemContextMessage E (world st))) dateTime
               \<and> includes_str (content (getSystemContextMessage E (world st))) date
               \<and> includes_str (content (getSystemContextMessage E (world st))) time"
    using systemContext_clock(2,3,4) [OF n] by (simp add: n)
  have 4: "take (length (arrays st)) (arrays st') = arrays st" using oc(2) by auto
  have 5: "arrays st' ! a = arrays st ! a" using oc(2) assms(2) by (auto simp: nth_append)
  have 6: "\<forall>u. out = Inr (Recurse u) \<longrightarrow>
           (\<exists>amsg. arrays st' ! u = arrays st ! a @ [amsg] \<and> role amsg = Assistant)
           \<and> (case arrays st' ! u of [] \<Rightarrow> False | m # ms \<Rightarrow> role m = System)
                 = (case arrays st ! a of [] \<Rightarrow> False | m # ms \<Rightarrow> role m = System)"
    using oc(2) unfolding hasSystemMessage_def [symmetric]
    by (auto simp: nth_append hasSystemMessage_snoc)
  have 7: "\<forall>res st''. chat E svc a st = Some (res, st'') \<longrightarrow>
           take (length (arrays st)) (arrays st'') = arrays st \<and> arrays st'' ! a = arrays st ! a"
  proof (intro allI impI)
    fix res st''
    assume "chat E svc a st = Some (res, st'')"
    from chat_grows [OF this assms(2)] obtain new where "arrays st'' = arrays st @ new" by blast
    with assms(2) show "take (length (arrays st)) (arrays st'') = arrays st \<and> arrays st'' ! a = arrays st ! a"
      by (simp add: nth_append)
  qed
  from 1 2 3 4 5 6 7 show ?thesis by blast
qed

text \<open>
  In the example conversation the history is one user message: the one request of the
  first round has the synthesized system message, which carries the date of the clock,
  and then the user message; the caller's array still holds the one user message after
  the round and after the whole call; the history of the second round is the user
  message and the assistant message with the tool call. On a history that starts with
  the system message \<open>Be brief.\<close> the request has that message and the user message,
  and nothing is synthesized.
\<close>

theorem system_context_only_on_wire_witness:
  "map messages (modelRequests (sent (snd (chatRound demoE new_AIService 0 demoState)))) =
     [[SystemParam (content (getSystemContextMessage demoE 0)), UserParam ''When is X free?'']]
   \<and> role (getSystemContextMessage demoE 0) = System
   \<and> includes_str (content (getSystemContextMessage demoE 0)) ''2025-01-01T00:00:00.000Z''
   \<and> arrays (snd (chatRound demoE new_AIService 0 demoState)) ! 0 = [demoQuestion]
   \<and> arrays (snd (chatRound demoE new_AIService 0 demoState)) ! 2 = [demoQuestion, demoToolMessage]
   \<and> arrays (snd (the (chat demoE new_AIService 0 demoState))) ! 0 = [demoQuestion]
   \<and> map messages (modelRequests (sent (snd (chatRound demoE new_AIService 0 demoSystemState)))) =
       [[SystemParam ''Be brief.'', UserParam ''When is X free?'']]
   \<and> arrays (snd (chatRound demoE new_AIService 0 demoSystemState)) ! 0 = [demoSystem, demoQuestion]"
proof -
  have o: "openai new_AIService" by (simp add: new_AIService_def)
  have v: "0 < length (arrays demoState)" by (simp add: demoState_def)
  have v': "0 < length (arrays demoSystemState)" by (simp add: demoSystemState_def)
  have r: "chatRound demoE new_AIService 0 demoState =
             (Inr (Recurse 2), snd (chatRound demoE new_AIService 0 demoState))"
    using demo_round1(1) by (cases "chatRound demoE new_AIService 0 demoState") simp
  have r': "chatRound demoE new_AIService 0 demoSystemState =
             (fst (chatRound demoE new_AIService 0 demoSystemState),
              snd (chatRound demoE new_AIService 0 demoSystemState))"
    by simp
  have c: "chat demoE new_AIService 0 demoState =
             Some (Inr demoAnswer, snd (the (chat demoE new_AIService 0 demoState)))"
    using demo_chat by (cases "chat demoE new_AIService 0 demoState") auto
  have q: "arrays demoState ! 0 = [demoQuestion]" "world demoState = 0" "sent demoState = []"
          "toWire demoE [demoQuestion] [] = [UserParam ''When is X free?'']"
          "role demoQuestion = User"
          "now demoE 0 = (''2025-01-01T00:00:00.000Z'', ''Wednesday, January 1, 2025'', ''12:00:00 AM UTC'')"
    by (simp_all add: demoState_def demoQuestion_def wireOf_def demoE_def demoEnv_def)
  have q': "arrays demoSystemState ! 0 = [demoSystem, demoQuestion]" "sent demoSystemState = []"
           "toWire demoE [demoSystem, demoQuestion] [] = [SystemParam ''Be brief.'', UserParam ''When is X free?'']"
           "role demoSystem = System"
    by (simp_all add: demoSystemState_def demoState_def demoSystem_def demoQuestion_def wireOf_def)
  note a = system_context_only_on_wire [OF o v r]
  note b = system_context_only_on_wire [OF o v' r']
  have 1: "map messages (modelRequests (sent (snd (chatRound demoE new_AIService 0 demoState)))) =
     [[SystemParam (content (getSystemContextMessage demoE 0)), UserParam ''When is X free?'']]"
    using a q by simp
  have 2: "role (getSystemContextMessage demoE 0) = System"
          "includes_str (content (getSystemContextMessage demoE 0)) ''2025-01-01T00:00:00.000Z''"
    using a q by simp_all
  have 3: "arrays (snd (chatRound demoE new_AIService 0 demoState)) ! 0 = [demoQuestion]"
    using a q by simp
  have 4: "arrays (snd (chatRound demoE new_AIService 0 demoState)) ! 2 = [demoQuestion, demoToolMessage]"
    using demo_round1(3) by simp
  have 5: "arrays (snd (the (chat demoE new_AIService 0 demoState))) ! 0 = [demoQuestion]"
    using a c q by simp
  have 6: "map messages (modelRequests (sent (snd (chatRound demoE new_AIService 0 demoSystemState)))) =
       [[SystemParam ''Be brief.'', UserParam ''When is X free?'']]"
    using b q' by simp
  have 7: "arrays (snd (chatRound demoE new_AIService 0 demoSystemState)) ! 0 = [demoSystem, demoQuestion]"
    using b q' by simp
  from 1 2 3 4 5 6 7 show ?thesis by blast
qed
text \<open>
  Claim C7. The request that \<open>chat\<close> sends to the model has no \<open>tools\<close> and no
  \<open>tool_choice\<close> field when the tool list of the orchestrator is empty, and has the
  converted function schemas and the choice \<open>auto\<close> when it is not. This holds of the
  request built for any wire messages, and so of every request sent during a call of
  \<open>chat\<close> that returns, the requests of the recursive calls included.
\<close>

theorem tools_field_only_with_tools:
  "req_tools (completionRequest svc wire) =
     (if tools svc = [] then None else Some (map toolToFunction (tools svc)))
   \<and> tool_choice (completionRequest svc wire) = (if tools svc = [] then None else Some ''auto'')
   \<and> (a < length (arrays st) \<and> chat E svc a st = Some (res, st') \<longrightarrow>
        (\<forall>q \<in> set (drop (length (modelRequests (sent st))) (modelRequests (sent st'))).
           req_tools q = (if tools svc = [] then None else Some (map toolToFunction (tools svc)))
           \<and> tool_choice q = (if tools svc = [] then None else Some ''auto'')))"
proof -
  have one: "req_tools (completionRequest svc w) =
               (if tools svc = [] then None else Some (map toolToFunction (tools svc)))
             \<and> tool_choice (completionRequest svc w) = (if tools svc = [] then None else Some ''auto'')"
    for w
    by (simp add: completionRequest_def mcpToolsToOpenAIFunctions_def Let_def)
  have all: "\<forall>q \<in> set (drop (length (modelRequests (sent st))) (modelRequests (sent st'))).
           req_tools q = (if tools svc = [] then None else Some (map toolToFunction (tools svc)))
           \<and> tool_choice q = (if tools svc = [] then None else Some ''auto'')"
    if v: "a < length (arrays st)" and c: "chat E svc a st = Some (res, st')"
  proof -
    from chat_grows [OF c v] obtain wires where
      "modelRequests (sent st') = modelRequests (sent st) @ map (completionRequest svc) wires"
      by blast
    then have "drop (length (modelRequests (sent st))) (modelRequests (sent st'))
                 = map (completionRequest svc) wires" by simp
    with one show ?thesis by auto
  qed
  from one [of wire] all show ?thesis by blast
qed

text \<open>
  With no tool the request has neither field, with the tool \<open>getResourceSchedule\<close> it
  has that function and \<open>auto\<close>; and the two requests of the example conversation, made
  with the empty tool list, have neither field.
\<close>

theorem tools_field_only_with_tools_witness:
  "req_tools (completionRequest new_AIService []) = None
   \<and> tool_choice (completionRequest new_AIService []) = None
   \<and> req_tools (completionRequest (setTools [demoTool] new_AIService) []) = Some [toolToFunction demoTool]
   \<and> tool_choice (completionRequest (setTools [demoTool] new_AIService) []) = Some ''auto''
   \<and> length (modelRequests (sent (snd (the (chat demoE new_AIService 0 demoState))))) = 2
   \<and> list_all (\<lambda>q. req_tools q = None \<and> tool_choice q = None)
        (modelRequests (sent (snd (the (chat demoE new_AIService 0 demoState)))))"
proof -
  have v: "0 < length (arrays demoState)" by (simp add: demoState_def)
  have c: "chat demoE new_AIService 0 demoState =
             Some (Inr demoAnswer, snd (the (chat demoE new_AIService 0 demoState)))"
    using demo_chat by (cases "chat demoE new_AIService 0 demoState") auto
  have t: "tools new_AIService = []" "tools (setTools [demoTool] new_AIService) = [demoTool]"
          "sent demoState = []"
    by (simp_all add: new_AIService_def setTools_def demoState_def)
  have w: "req_tools (completionRequest (setTools [demoTool] new_AIService) []) = Some [toolToFunction demoTool]
           \<and> tool_choice (completionRequest (setTools [demoTool] new_AIService) []) = Some ''auto''"
    using tools_field_only_with_tools [of "setTools [demoTool] new_AIService" "[]" 0 demoState demoE
            "Inr demoAnswer" "snd (the (chat demoE new_AIService 0 demoState))"] t
    by simp
  from tools_field_only_with_tools [of new_AIService "[]" 0 demoState demoE "Inr demoAnswer"
         "snd (the (chat demoE new_AIService 0 demoState))"]
       w v c t demo_chat_requests
  show ?thesis by (simp add: list_all_iff)
qed

section \<open>Malformed arguments and failing tools\<close>

text \<open>
  Claim C6. When the argument string of a function call in the model's reply is not
  valid JSON, the round does not throw: it goes on to the recursive call, the call is
  recorded with the empty mapping as its arguments, and a \<open>tools/call\<close> request with the
  name of the tool and the empty mapping is sent during the round.
\<close>

theorem malformed_arguments_become_empty:
  assumes "openai svc" and "mcpClient svc" and "a < length (arrays st)"
      and "complete E (world st)
             (completionRequest svc (toWire E (withSystemContext E (world st) (arrays st ! a)) []))
           = (Inr (Some m), w)"
      and "tool_calls m = Some (pre @ FunctionToolCall i n s # post)"
      and "parse E s = Inl e"
  shows "\<exists>u st' amsg tcs.
           chatRound E svc a st = (Inr (Recurse u), st')
           \<and> arrays st' ! u = arrays st ! a @ [amsg]
           \<and> toolCalls amsg = Some tcs
           \<and> \<lparr>tc_id = i, tc_name = n, tc_arguments = JObj []\<rparr> \<in> set tcs
           \<and> (''tools/call'', JObj [(''name'', JStr n), (''arguments'', JObj [])])
                \<in> set (drop (length (sentCalls (sent st))) (sentCalls (sent st')))"
proof -
  let ?st4 = "afterModelCall E svc a w st"
  let ?calls = "pre @ FunctionToolCall i n s # post"
  let ?tc = "\<lparr>tc_id = i, tc_name = n, tc_arguments = JObj []\<rparr>"
  obtain tcs tcrs st5 where run0: "executeToolCalls E svc ?calls ([], [], ?st4) = (tcs, tcrs, st5)"
    by (rule prod_cases3)
  from executeToolCalls_record [OF run0] assms(2)
  have rec: "tcs = recordedCalls E ?calls"
    and snt: "sentCalls (sent st5) = sentCalls (sent ?st4) @ map callRequest (recordedCalls E ?calls)"
    by simp_all
  have mem: "?tc \<in> set (recordedCalls E ?calls)"
    using assms(6) by (simp add: recordedCalls_append)
  then have ne: "tcs \<noteq> []" using rec by auto
  have run: "(case tool_calls m of
                None \<Rightarrow> ([], [], ?st4)
              | Some calls \<Rightarrow> executeToolCalls E svc calls ([], [], ?st4)) = (tcs, tcrs, st5)"
    using run0 assms(5) by simp
  let ?amsg = "\<lparr>role = Assistant, content = (case reply_content m of None \<Rightarrow> [] | Some c \<Rightarrow> c),
                 toolCalls = Some tcs, toolCallResults = Some tcrs\<rparr>"
  let ?st' = "st5\<lparr>arrays := arrays ?st4 @ [arrays ?st4 ! a @ [?amsg]]\<rparr>"
  have r: "chatRound E svc a st = (Inr (Recurse (length (arrays ?st4))), ?st')"
    using chatRound_eq [OF assms(1,3,4)] handleReply_eq [OF run, of a] ne by simp
  have a4: "arrays ?st4 ! a = arrays st ! a"
    using assms(3) by (simp add: afterModelCall_def nth_append)
  have 1: "arrays ?st' ! length (arrays ?st4) = arrays st ! a @ [?amsg]"
    using a4 by simp
  have s4: "sentCalls (sent ?st4) = sentCalls (sent st)"
    by (simp add: afterModelCall_def sentCalls_append)
  have "drop (length (sentCalls (sent st))) (sentCalls (sent ?st')) = map callRequest (recordedCalls E ?calls)"
    using snt s4 by simp
  moreover have "callRequest ?tc \<in> set (map callRequest (recordedCalls E ?calls))"
    using mem by (simp only: set_map image_eqI [OF refl])
  ultimately have 2: "(''tools/call'', JObj [(''name'', JStr n), (''arguments'', JObj [])])
                \<in> set (drop (length (sentCalls (sent st))) (sentCalls (sent ?st')))"
    by (simp add: callRequest_def)
  have 3: "toolCalls ?amsg = Some tcs" by simp
  from r 1 3 mem rec 2 show ?thesis by blast
qed

text \<open>
  In the example the model asks for \<open>getResourceSchedule\<close> with the truncated argument
  string \<open>{"resourceId":\<close>, which \<open>JSON.parse\<close> rejects.
\<close>

theorem malformed_arguments_become_empty_witness:
  "\<exists>u st' amsg tcs.
     chatRound (demoEnv okServer badArgsThenText) new_AIService 0 demoState = (Inr (Recurse u), st')
     \<and> arrays st' ! u = arrays demoState ! 0 @ [amsg]
     \<and> toolCalls amsg = Some tcs
     \<and> \<lparr>tc_id = ''call_1'', tc_name = ''getResourceSchedule'', tc_arguments = JObj []\<rparr> \<in> set tcs
     \<and> (''tools/call'', JObj [(''name'', JStr ''getResourceSchedule''), (''arguments'', JObj [])])
          \<in> set (drop (length (sentCalls (sent demoState))) (sentCalls (sent st')))"
proof -
  let ?E = "demoEnv okServer badArgsThenText"
  let ?m = "\<lparr>reply_content = None,
             tool_calls = Some [FunctionToolCall ''call_1'' ''getResourceSchedule'' ''{\"resourceId\":'']\<rparr>"
  have o: "openai new_AIService" and k: "mcpClient new_AIService" by (simp_all add: new_AIService_def)
  have v: "0 < length (arrays demoState)" by (simp add: demoState_def)
  have c: "complete ?E (world demoState)
             (completionRequest new_AIService
                (toWire ?E (withSystemContext ?E (world demoState) (arrays demoState ! 0)) []))
           = (Inr (Some ?m), 1)"
    by (simp add: demo_complete demoState_def badArgsThenText_def)
  have t: "tool_calls ?m = Some ([] @ FunctionToolCall ''call_1'' ''getResourceSchedule'' ''{\"resourceId\":'' # [])"
    by simp
  have p: "parse ?E ''{\"resourceId\":'' = Inl (Error ''Unexpected token in JSON'')"
    by (simp add: demo_parse demoParse_def demoTable_def)
  from malformed_arguments_become_empty [OF o k v c t p] show ?thesis .
qed

lemma chat_model_fails:
  assumes "openai svc" and "a < length (arrays st)"
      and "complete E (world st)
             (completionRequest svc (toWire E (withSystemContext E (world st) (arrays st ! a)) []))
           = (Inl e, w)"
  shows "chat E svc a st = Some (Inl e, afterModelCall E svc a w st)"
  using chatRound_eq [OF assms] by (subst chat.simps) simp

lemma chat_text_reply:
  assumes "openai svc" and "a < length (arrays st)"
      and "complete E (world st)
             (completionRequest svc (toWire E (withSystemContext E (world st) (arrays st ! a)) []))
           = (Inr (Some m), w)"
      and "(case tool_calls m of None \<Rightarrow> [] | Some calls \<Rightarrow> functionIds calls) = []"
  shows "\<exists>st'. chat E svc a st =
           Some (Inr \<lparr>role = Assistant,
                      content = (case reply_content m of None \<Rightarrow> [] | Some c \<Rightarrow> c),
                      toolCalls = None, toolCallResults = None\<rparr>, st')"
proof -
  let ?st4 = "afterModelCall E svc a w st"
  obtain tcs tcrs st5 where
    run: "(case tool_calls m of
             None \<Rightarrow> ([], [], ?st4)
           | Some calls \<Rightarrow> executeToolCalls E svc calls ([], [], ?st4)) = (tcs, tcrs, st5)"
    by (rule prod_cases3)
  have "tcs = []"
  proof (cases "tool_calls m")
    case None
    with run show ?thesis by simp
  next
    case (Some calls)
    with run have "executeToolCalls E svc calls ([], [], ?st4) = (tcs, tcrs, st5)" by simp
    from executeToolCalls_props [OF this] assms(4) Some show ?thesis by simp
  qed
  with chatRound_eq [OF assms(1,2,3)] handleReply_eq [OF run, of a]
  have "chatRound E svc a st =
          (Inr (Return \<lparr>role = Assistant,
                      content = (case reply_content m of None \<Rightarrow> [] | Some c \<Rightarrow> c),
                      toolCalls = None, toolCallResults = None\<rparr>), st5)"
    by simp
  then have "chat E svc a st =
           Some (Inr \<lparr>role = Assistant,
                      content = (case reply_content m of None \<Rightarrow> [] | Some c \<Rightarrow> c),
                      toolCalls = None, toolCallResults = None\<rparr>, st5)"
    by (subst chat.simps) simp
  then show ?thesis by blast
qed

lemma down_env:
  "fetch downE w q = (Inr (failingServer (body q)), w)"
  "parse downE = demoParse"
  "complete downE w r = (if w = 0 then Inr (toolThenText 0) else Inl (Error ''model down''), Suc w)"
  by (simp_all add: downE_def demoE_def demoEnv_def)

lemma down_call:
  "executeToolCall downE new_AIService n args st =
     (Inl (Error ''HTTP error! status: 500''),
      st\<lparr>world := world st,
         client := (client st)\<lparr>requestId := Suc (requestId (client st))\<rparr>,
         sent := sent st @ [HttpRequest
            (httpRequest ((client st)\<lparr>requestId := Suc (requestId (client st))\<rparr>)
               (Suc (requestId (client st))) ''tools/call''
               (withServer [(''name'', JStr n), (''arguments'', args)] None))]\<rparr>)"
proof -
  have "fetch downE (world st)
          (httpRequest ((client st)\<lparr>requestId := Suc (requestId (client st))\<rparr>)
               (Suc (requestId (client st))) ''tools/call''
               (withServer [(''name'', JStr n), (''arguments'', args)] None))
        = (Inr (failingServer (body (httpRequest ((client st)\<lparr>requestId := Suc (requestId (client st))\<rparr>)
               (Suc (requestId (client st))) ''tools/call''
               (withServer [(''name'', JStr n), (''arguments'', args)] None)))), world st)"
    by (rule down_env(1))
  from request_eq [OF this] show ?thesis
    unfolding executeToolCall_def callTool_def new_AIService_def
    by (simp add: failing_decode)
qed

lemma down_round1:
  "fst (chatRound downE new_AIService 0 demoState) = Inr (Recurse 2)"
  "world (snd (chatRound downE new_AIService 0 demoState)) = 1"
  "arrays (snd (chatRound downE new_AIService 0 demoState)) =
     [[demoQuestion],
      [getSystemContextMessage downE 0, demoQuestion],
      [demoQuestion, demoToolMessage]]"
proof -
  let ?m = "\<lparr>reply_content = None,
             tool_calls = Some [FunctionToolCall ''call_1'' ''getResourceSchedule'' ''{\"resourceId\":\"X\"}'']\<rparr>"
  have o: "openai new_AIService" by (simp add: new_AIService_def)
  have v: "0 < length (arrays demoState)" by (simp add: demoState_def)
  have c: "complete downE (world demoState)
             (completionRequest new_AIService
                (toWire downE (withSystemContext downE (world demoState) (arrays demoState ! 0)) []))
           = (Inr (Some ?m), 1)"
    by (simp add: down_env demoState_def toolThenText_def)
  have r: "chatRound downE new_AIService 0 demoState =
             handleReply downE new_AIService 0 ?m (afterModelCall downE new_AIService 0 1 demoState)"
    using chatRound_eq [OF o v c] by simp
  let ?st4 = "afterModelCall downE new_AIService 0 1 demoState"
  obtain st5 where x: "executeToolCall downE new_AIService ''getResourceSchedule''
            (case parse downE ''{\"resourceId\":\"X\"}'' of Inr v \<Rightarrow> v | Inl e \<Rightarrow> JObj []) ?st4
          = (Inl (Error ''HTTP error! status: 500''), st5)"
       and a5: "arrays st5 = arrays ?st4" and w5: "world st5 = world ?st4"
    using down_call [of "''getResourceSchedule''" _ ?st4] by simp
  have run: "(case tool_calls ?m of
                None \<Rightarrow> ([], [], ?st4)
              | Some calls \<Rightarrow> executeToolCalls downE new_AIService calls ([], [], ?st4))
             = ([\<lparr>tc_id = ''call_1'', tc_name = ''getResourceSchedule'',
                         tc_arguments = JObj [(''resourceId'', JStr ''X'')]\<rparr>],
                [\<lparr>toolCallId = ''call_1'',
                               result = JObj [(''error'', JStr ''HTTP error! status: 500'')]\<rparr>],
                st5)"
    using executeToolCalls_function [OF x, of "''call_1''" "[]" "[]" "[]"] demo_args
    by (simp add: down_env)
  have h: "chatRound downE new_AIService 0 demoState =
             (Inr (Recurse (length (arrays ?st4))),
              st5\<lparr>arrays := arrays ?st4 @ [arrays ?st4 ! 0 @ [demoToolMessage]]\<rparr>)"
    using handleReply_eq [OF run, of 0] r by (simp add: demoToolMessage_def)
  have a4: "arrays ?st4 = [[demoQuestion], [getSystemContextMessage downE 0, demoQuestion]]"
    by (simp add: afterModelCall_def demoState_def withSystemContext_def hasSystemMessage_def
                  demoQuestion_def)
  show "fst (chatRound downE new_AIService 0 demoState) = Inr (Recurse 2)"
    using h a4 by simp
  show "world (snd (chatRound downE new_AIService 0 demoState)) = 1"
    using h w5 by (simp add: afterModelCall_def)
  show "arrays (snd (chatRound downE new_AIService 0 demoState)) =
     [[demoQuestion],
      [getSystemContextMessage downE 0, demoQuestion],
      [demoQuestion, demoToolMessage]]"
    using h a4 by simp
qed

text \<open>
  Claim C2, as amended. When, in a round of \<open>chat\<close>, the execution of a function call of
  the model's reply throws, the round does not throw: it records for that call the result
  \<open>{error: message}\<close> (the message of the error, or \<open>Unknown error\<close> for a thrown value
  that is not an \<open>Error\<close>) in the \<open>toolCallResults\<close> of an assistant message, appends this
  message to the history, and \<open>chat\<close> continues as \<open>chat\<close> on the extended history: the
  model is queried again, and the outcome of the turn is the outcome of that query. When
  the model then replies without a function call, the turn returns an assistant message
  with the text of that reply and no tool fields; when the second query of the model
  throws, the turn throws that value.
\<close>

theorem failing_tool_is_recorded:
  assumes "openai svc" and "a < length (arrays st)"
      and "complete E (world st)
             (completionRequest svc (toWire E (withSystemContext E (world st) (arrays st ! a)) []))
           = (Inr (Some m), w)"
      and "tool_calls m = Some (pre @ FunctionToolCall i n s # post)"
      and "executeToolCalls E svc pre ([], [], afterModelCall E svc a w st) = (tcs0, tcrs0, st0)"
      and "executeToolCall E svc n (case parse E s of Inr v \<Rightarrow> v | Inl e \<Rightarrow> JObj []) st0
             = (Inl err, st1)"
  shows "\<exists>u st' amsg tcrs.
           chatRound E svc a st = (Inr (Recurse u), st')
           \<and> arrays st' ! u = arrays st ! a @ [amsg]
           \<and> role amsg = Assistant
           \<and> toolCallResults amsg = Some tcrs
           \<and> \<lparr>toolCallId = i,
               result = JObj [(''error'',
                  JStr (case err of Error msg \<Rightarrow> msg | NonError v \<Rightarrow> ''Unknown error''))]\<rparr> \<in> set tcrs
           \<and> chat E svc a st = chat E svc u st'
           \<and> (\<forall>m2 w2.
                 complete E (world st')
                   (completionRequest svc
                      (toWire E (withSystemContext E (world st') (arrays st ! a @ [amsg])) []))
                   = (Inr (Some m2), w2)
                 \<and> (case tool_calls m2 of None \<Rightarrow> [] | Some calls \<Rightarrow> functionIds calls) = []
                 \<longrightarrow> (\<exists>st''. chat E svc a st =
                        Some (Inr \<lparr>role = Assistant,
                                   content = (case reply_content m2 of None \<Rightarrow> [] | Some c \<Rightarrow> c),
                                   toolCalls = None, toolCallResults = None\<rparr>, st'')))
           \<and> (\<forall>e2 w2.
                 complete E (world st')
                   (completionRequest svc
                      (toWire E (withSystemContext E (world st') (arrays st ! a @ [amsg])) []))
                   = (Inl e2, w2)
                 \<longrightarrow> (\<exists>st''. chat E svc a st = Some (Inl e2, st'')))"
proof -
  let ?st4 = "afterModelCall E svc a w st"
  let ?calls = "pre @ FunctionToolCall i n s # post"
  let ?args = "case parse E s of Inr v \<Rightarrow> v | Inl e \<Rightarrow> JObj []"
  let ?tc = "\<lparr>tc_id = i, tc_name = n, tc_arguments = ?args\<rparr>"
  let ?tcr = "\<lparr>toolCallId = i, result = thrownToResult err\<rparr>"
  obtain tcs tcrs st5 where
    rest: "executeToolCalls E svc post (tcs0 @ [?tc], tcrs0 @ [?tcr], st1) = (tcs, tcrs, st5)"
    by (rule prod_cases3)
  have "executeToolCalls E svc ?calls ([], [], ?st4) =
          executeToolCalls E svc (FunctionToolCall i n s # post) (tcs0, tcrs0, st0)"
    using executeToolCalls_append [of E svc pre "FunctionToolCall i n s # post" "([], [], ?st4)"]
          assms(5) by simp
  also have "\<dots> = executeToolCalls E svc post (tcs0 @ [?tc], tcrs0 @ [?tcr], st1)"
    using executeToolCalls_function [OF assms(6), of i post tcs0 tcrs0] by simp
  finally have run0: "executeToolCalls E svc ?calls ([], [], ?st4) = (tcs, tcrs, st5)"
    using rest by simp
  from executeToolCalls_record [OF rest]
  have "tcs = (tcs0 @ [?tc]) @ recordedCalls E post" and sub: "set (tcrs0 @ [?tcr]) \<subseteq> set tcrs"
    by simp_all
  then have ne: "tcs \<noteq> []" by simp
  from sub have mem: "?tcr \<in> set tcrs" by simp
  have run: "(case tool_calls m of
                None \<Rightarrow> ([], [], ?st4)
              | Some calls \<Rightarrow> executeToolCalls E svc calls ([], [], ?st4)) = (tcs, tcrs, st5)"
    using run0 assms(4) by simp
  let ?amsg = "\<lparr>role = Assistant, content = (case reply_content m of None \<Rightarrow> [] | Some c \<Rightarrow> c),
                 toolCalls = Some tcs, toolCallResults = Some tcrs\<rparr>"
  let ?st' = "st5\<lparr>arrays := arrays ?st4 @ [arrays ?st4 ! a @ [?amsg]]\<rparr>"
  let ?u = "length (arrays ?st4)"
  have r: "chatRound E svc a st = (Inr (Recurse ?u), ?st')"
    using chatRound_eq [OF assms(1,2,3)] handleReply_eq [OF run, of a] ne by simp
  have a4: "arrays ?st4 ! a = arrays st ! a"
    using assms(2) by (simp add: afterModelCall_def nth_append)
  have 1: "arrays ?st' ! ?u = arrays st ! a @ [?amsg]"
    using a4 by simp
  have 2: "role ?amsg = Assistant" "toolCallResults ?amsg = Some tcrs" by simp_all
  have 3: "\<lparr>toolCallId = i,
               result = JObj [(''error'',
                  JStr (case err of Error msg \<Rightarrow> msg | NonError v \<Rightarrow> ''Unknown error''))]\<rparr> \<in> set tcrs"
    using mem by (simp add: thrownToResult_eq)
  have 4: "chat E svc a st = chat E svc ?u ?st'"
    by (subst chat.simps) (simp add: r)
  have vu: "?u < length (arrays ?st')" by simp
  have 5: "\<forall>m2 w2.
             complete E (world ?st')
               (completionRequest svc
                  (toWire E (withSystemContext E (world ?st') (arrays st ! a @ [?amsg])) []))
               = (Inr (Some m2), w2)
             \<and> (case tool_calls m2 of None \<Rightarrow> [] | Some calls \<Rightarrow> functionIds calls) = []
             \<longrightarrow> (\<exists>st''. chat E svc a st =
                    Some (Inr \<lparr>role = Assistant,
                               content = (case reply_content m2 of None \<Rightarrow> [] | Some c \<Rightarrow> c),
                               toolCalls = None, toolCallResults = None\<rparr>, st''))"
  proof (intro allI impI, elim conjE)
    fix m2 w2
    assume c2: "complete E (world ?st')
               (completionRequest svc
                  (toWire E (withSystemContext E (world ?st') (arrays st ! a @ [?amsg])) []))
               = (Inr (Some m2), w2)"
       and nf: "(case tool_calls m2 of None \<Rightarrow> [] | Some calls \<Rightarrow> functionIds calls) = []"
    from c2 1 have "complete E (world ?st')
               (completionRequest svc
                  (toWire E (withSystemContext E (world ?st') (arrays ?st' ! ?u)) []))
               = (Inr (Some m2), w2)" by simp
    from chat_text_reply [OF assms(1) vu this nf] 4
    show "\<exists>st''. chat E svc a st =
                    Some (Inr \<lparr>role = Assistant,
                               content = (case reply_content m2 of None \<Rightarrow> [] | Some c \<Rightarrow> c),
                               toolCalls = None, toolCallResults = None\<rparr>, st'')"
      by simp
  qed
  have 6: "\<forall>e2 w2.
             complete E (world ?st')
               (completionRequest svc
                  (toWire E (withSystemContext E (world ?st') (arrays st ! a @ [?amsg])) []))
               = (Inl e2, w2)
             \<longrightarrow> (\<exists>st''. chat E svc a st = Some (Inl e2, st''))"
  proof (intro allI impI)
    fix e2 w2
    assume c2: "complete E (world ?st')
               (completionRequest svc
                  (toWire E (withSystemContext E (world ?st') (arrays st ! a @ [?amsg])) []))
               = (Inl e2, w2)"
    with 1 have "complete E (world ?st')
               (completionRequest svc
                  (toWire E (withSystemContext E (world ?st') (arrays ?st' ! ?u)) []))
               = (Inl e2, w2)" by simp
    from chat_model_fails [OF assms(1) vu this] 4
    show "\<exists>st''. chat E svc a st = Some (Inl e2, st'')" by simp
  qed
  from r 1 2 3 4 5 6 show ?thesis by blast
qed

text \<open>
  In the example conversation the server answers the tool call with status 500: the
  round records \<open>{error: "HTTP error! status: 500"}\<close> for \<open>call_1\<close>, the model is queried
  again and the turn ends with the text of its second reply. With a model that throws
  \<open>model down\<close> on the second query, the same round is followed by a turn that throws
  \<open>model down\<close>.
\<close>

theorem failing_tool_is_recorded_witness:
  "(\<exists>u st' amsg tcrs.
      chatRound demoE new_AIService 0 demoState = (Inr (Recurse u), st')
      \<and> arrays st' ! u = arrays demoState ! 0 @ [amsg]
      \<and> role amsg = Assistant
      \<and> toolCallResults amsg = Some tcrs
      \<and> \<lparr>toolCallId = ''call_1'',
          result = JObj [(''error'', JStr ''HTTP error! status: 500'')]\<rparr> \<in> set tcrs
      \<and> chat demoE new_AIService 0 demoState = chat demoE new_AIService u st')
   \<and> (\<exists>st''. chat demoE new_AIService 0 demoState = Some (Inr demoAnswer, st''))
   \<and> (\<exists>st''. chat downE new_AIService 0 demoState = Some (Inl (Error ''model down''), st''))"
proof -
  let ?m = "\<lparr>reply_content = None,
             tool_calls = Some [FunctionToolCall ''call_1'' ''getResourceSchedule'' ''{\"resourceId\":\"X\"}'']\<rparr>"
  let ?m2 = "\<lparr>reply_content = Some ''The schedule is unavailable.'', tool_calls = None\<rparr>"
  have o: "openai new_AIService" by (simp add: new_AIService_def)
  have v: "0 < length (arrays demoState)" by (simp add: demoState_def)
  have t: "tool_calls ?m = Some ([] @ FunctionToolCall ''call_1'' ''getResourceSchedule'' ''{\"resourceId\":\"X\"}'' # [])"
    by simp
  \<comment> \<open>the model that answers in text\<close>
  let ?st4 = "afterModelCall demoE new_AIService 0 1 demoState"
  have c: "complete demoE (world demoState)
             (completionRequest new_AIService
                (toWire demoE (withSystemContext demoE (world demoState) (arrays demoState ! 0)) []))
           = (Inr (Some ?m), 1)"
    by (simp add: demoE_def demo_complete demoState_def toolThenText_def)
  have p: "executeToolCalls demoE new_AIService [] ([], [], ?st4) = ([], [], ?st4)" by simp
  have x: "executeToolCall demoE new_AIService ''getResourceSchedule''
            (case parse demoE ''{\"resourceId\":\"X\"}'' of Inr v \<Rightarrow> v | Inl e \<Rightarrow> JObj []) ?st4
          = (Inl (Error ''HTTP error! status: 500''),
             snd (executeToolCall demoE new_AIService ''getResourceSchedule''
                    (case parse demoE ''{\"resourceId\":\"X\"}'' of Inr v \<Rightarrow> v | Inl e \<Rightarrow> JObj []) ?st4))"
    using failing_call [of toolThenText "''getResourceSchedule''" _ ?st4]
    by (simp add: demoE_def)
  from failing_tool_is_recorded [OF o v c t p x] obtain u st' amsg tcrs where
    a: "chatRound demoE new_AIService 0 demoState = (Inr (Recurse u), st')"
       "arrays st' ! u = arrays demoState ! 0 @ [amsg]"
       "role amsg = Assistant"
       "toolCallResults amsg = Some tcrs"
       "\<lparr>toolCallId = ''call_1'',
          result = JObj [(''error'',
            JStr (case Error ''HTTP error! status: 500'' of Error msg \<Rightarrow> msg
                  | NonError v \<Rightarrow> ''Unknown error''))]\<rparr> \<in> set tcrs"
       "chat demoE new_AIService 0 demoState = chat demoE new_AIService u st'"
       "\<forall>m2 w2.
             complete demoE (world st')
               (completionRequest new_AIService
                  (toWire demoE (withSystemContext demoE (world st') (arrays demoState ! 0 @ [amsg])) []))
               = (Inr (Some m2), w2)
             \<and> (case tool_calls m2 of None \<Rightarrow> [] | Some calls \<Rightarrow> functionIds calls) = []
             \<longrightarrow> (\<exists>st''. chat demoE new_AIService 0 demoState =
                    Some (Inr \<lparr>role = Assistant,
                               content = (case reply_content m2 of None \<Rightarrow> [] | Some c \<Rightarrow> c),
                               toolCalls = None, toolCallResults = None\<rparr>, st''))"
       "\<forall>e2 w2.
             complete demoE (world st')
               (completionRequest new_AIService
                  (toWire demoE (withSystemContext demoE (world st') (arrays demoState ! 0 @ [amsg])) []))
               = (Inl e2, w2)
             \<longrightarrow> (\<exists>st''. chat demoE new_AIService 0 demoState = Some (Inl e2, st''))"
    by (elim exE conjE)
  from a(1) demo_round1(2) have w1: "world st' = 1" by simp
  have "complete demoE (world st')
                   (completionRequest new_AIService
                      (toWire demoE (withSystemContext demoE (world st') (arrays demoState ! 0 @ [amsg])) []))
                   = (Inr (Some ?m2), 2)"
    by (simp add: w1 demoE_def demo_complete toolThenText_def)
  with a(7) [rule_format, of ?m2 2]
  have 2: "\<exists>st''. chat demoE new_AIService 0 demoState = Some (Inr demoAnswer, st'')"
    by (simp add: demoAnswer_def)
  from a(5) have a5: "\<lparr>toolCallId = ''call_1'',
          result = JObj [(''error'', JStr ''HTTP error! status: 500'')]\<rparr> \<in> set tcrs"
    by simp
  from a(1-4) a5 a(6) have 1: "\<exists>u st' amsg tcrs.
      chatRound demoE new_AIService 0 demoState = (Inr (Recurse u), st')
      \<and> arrays st' ! u = arrays demoState ! 0 @ [amsg]
      \<and> role amsg = Assistant
      \<and> toolCallResults amsg = Some tcrs
      \<and> \<lparr>toolCallId = ''call_1'',
          result = JObj [(''error'', JStr ''HTTP error! status: 500'')]\<rparr> \<in> set tcrs
      \<and> chat demoE new_AIService 0 demoState = chat demoE new_AIService u st'"
    by (intro exI conjI)
  \<comment> \<open>the model that throws on the second query\<close>
  let ?dt4 = "afterModelCall downE new_AIService 0 1 demoState"
  have c': "complete downE (world demoState)
             (completionRequest new_AIService
                (toWire downE (withSystemContext downE (world demoState) (arrays demoState ! 0)) []))
           = (Inr (Some ?m), 1)"
    by (simp add: down_env demoState_def toolThenText_def)
  have p': "executeToolCalls downE new_AIService [] ([], [], ?dt4) = ([], [], ?dt4)" by simp
  have x': "executeToolCall downE new_AIService ''getResourceSchedule''
            (case parse downE ''{\"resourceId\":\"X\"}'' of Inr v \<Rightarrow> v | Inl e \<Rightarrow> JObj []) ?dt4
          = (Inl (Error ''HTTP error! status: 500''),
             snd (executeToolCall downE new_AIService ''getResourceSchedule''
                    (case parse downE ''{\"resourceId\":\"X\"}'' of Inr v \<Rightarrow> v | Inl e \<Rightarrow> JObj []) ?dt4))"
    using down_call [of "''getResourceSchedule''" _ ?dt4] by simp
  from failing_tool_is_recorded [OF o v c' t p' x'] obtain u2 st2 amsg2 tcrs2 where
    b: "chatRound downE new_AIService 0 demoState = (Inr (Recurse u2), st2)"
       "arrays st2 ! u2 = arrays demoState ! 0 @ [amsg2]"
       "role amsg2 = Assistant"
       "toolCallResults amsg2 = Some tcrs2"
       "\<lparr>toolCallId = ''call_1'',
          result = JObj [(''error'',
            JStr (case Error ''HTTP error! status: 500'' of Error msg \<Rightarrow> msg
                  | NonError v \<Rightarrow> ''Unknown error''))]\<rparr> \<in> set tcrs2"
       "chat downE new_AIService 0 demoState = chat downE new_AIService u2 st2"
       "\<forall>m2 w2.
             complete downE (world st2)
               (completionRequest new_AIService
                  (toWire downE (withSystemContext downE (world st2) (arrays demoState ! 0 @ [amsg2])) []))
               = (Inr (Some m2), w2)
             \<and> (case tool_calls m2 of None \<Rightarrow> [] | Some calls \<Rightarrow> functionIds calls) = []
             \<longrightarrow> (\<exists>st''. chat downE new_AIService 0 demoState =
                    Some (Inr \<lparr>role = Assistant,
                               content = (case reply_content m2 of None \<Rightarrow> [] | Some c \<Rightarrow> c),
                               toolCalls = None, toolCallResults = None\<rparr>, st''))"
       "\<forall>e2 w2.
             complete downE (world st2)
               (completionRequest new_AIService
                  (toWire downE (withSystemContext downE (world st2) (arrays demoState ! 0 @ [amsg2])) []))
               = (Inl e2, w2)
             \<longrightarrow> (\<exists>st''. chat downE new_AIService 0 demoState = Some (Inl e2, st''))"
    by (elim exE conjE)
  from b(1) down_round1(2) have w2: "world st2 = 1" by simp
  have "complete downE (world st2)
                   (completionRequest new_AIService
                      (toWire downE (withSystemContext downE (world st2) (arrays demoState ! 0 @ [amsg2])) []))
                   = (Inl (Error ''model down''), 2)"
    by (simp add: w2 down_env)
  with b(8) [rule_format, of "Error ''model down''" 2] have 3: "\<exists>st''. chat downE new_AIService 0 demoState = Some (Inl (Error ''model down''), st'')"
    by simp
  from 1 2 3 show ?thesis by blast
qed

text \<open>
  The claim as it is stated fails: after a failing tool the turn need not complete with
  an assistant answer. With the model that throws on the second query, the first round
  records the failure of \<open>call_1\<close> and recurses, and the turn throws \<open>model down\<close>.
\<close>

theorem failing_tool_then_model_down_counterexample:
  "fst (chatRound downE new_AIService 0 demoState) = Inr (Recurse 2)
   \<and> arrays (snd (chatRound downE new_AIService 0 demoState)) ! 2 = [demoQuestion, demoToolMessage]
   \<and> map_option fst (chat downE new_AIService 0 demoState) = Some (Inl (Error ''model down''))"
proof -
  have o: "openai new_AIService" by (simp add: new_AIService_def)
  obtain st1 where r1: "chatRound downE new_AIService 0 demoState = (Inr (Recurse 2), st1)"
    using down_round1(1) by (cases "chatRound downE new_AIService 0 demoState") simp
  with down_round1(2,3) have s1: "world st1 = 1" "arrays st1 = [[demoQuestion],
      [getSystemContextMessage downE 0, demoQuestion],
      [demoQuestion, demoToolMessage]]"
    by simp_all
  have v1: "2 < length (arrays st1)" using s1 by simp
  have "complete downE (world st1)
          (completionRequest new_AIService
             (toWire downE (withSystemContext downE (world st1) (arrays st1 ! 2)) []))
        = (Inl (Error ''model down''), 2)"
    by (simp add: s1(1) down_env)
  from chat_model_fails [OF o v1 this]
  have "chat downE new_AIService 2 st1 =
          Some (Inl (Error ''model down''), afterModelCall downE new_AIService 2 2 st1)" .
  then have "chat downE new_AIService 0 demoState =
          Some (Inl (Error ''model down''), afterModelCall downE new_AIService 2 2 st1)"
    by (subst chat.simps) (simp add: r1)
  with down_round1(1,3) show ?thesis by simp
qed
section \<open>Refreshing the tool catalog\<close>

lemma loadTools_listed:
  assumes "store_mcpClient store" and "listTools E None st = (Inr r, st')" and "r \<noteq> JNull"
  shows "loadTools E (store, st) =
           (store\<lparr>store_tools := (case resultTools r of None \<Rightarrow> [] | Some xs \<Rightarrow> xs),
                  aiService :=
                    (case aiService store of
                       None \<Rightarrow> None
                     | Some svc \<Rightarrow>
                         Some (if (case resultTools r of None \<Rightarrow> [] | Some xs \<Rightarrow> xs) \<noteq> []
                               then setTools (case resultTools r of None \<Rightarrow> [] | Some xs \<Rightarrow> xs) svc
                               else svc))\<rparr>, st')"
proof (cases "aiService store")
  case None
  with assms show ?thesis by (simp add: loadTools_def Let_def)
next
  case (Some svc)
  with assms show ?thesis by (simp add: loadTools_def Let_def)
qed

lemma catalog_listing:
  "listTools (demoEnv catalogServer rs) None st =
     (Inr (if requestId (client st) = 0
           then JObj [(''tools'', JArr [JObj [(''name'', JStr ''getResourceSchedule'')]])]
           else JObj [(''tools'', JArr [])]),
      st\<lparr>world := world st,
         client := (client st)\<lparr>requestId := Suc (requestId (client st))\<rparr>,
         sent := sent st @ [HttpRequest
            (httpRequest ((client st)\<lparr>requestId := Suc (requestId (client st))\<rparr>)
               (Suc (requestId (client st))) ''tools/list'' (withServer [] None))]\<rparr>)"
  by (simp add: listTools_def demo_request catalogServer_def decode_json [OF parse_catalog]
        decode_json [OF parse_empty_catalog] envelope_def)

lemma catalog_tools:
  "resultTools (JObj [(''tools'', JArr [JObj [(''name'', JStr ''getResourceSchedule'')]])]) = Some [demoTool]"
  "resultTools (JObj [(''tools'', JArr [])]) = Some []"
  by (simp_all add: resultTools_def asTool_def demoTool_def)

lemma catalog_first_load:
  "loadTools (demoEnv catalogServer rs) (demoStore, demoState) =
     (demoStore\<lparr>store_tools := [demoTool], aiService := Some (setTools [demoTool] new_AIService)\<rparr>,
      demoState\<lparr>world := world demoState,
         client := (client demoState)\<lparr>requestId := Suc 0\<rparr>,
         sent := [HttpRequest
            (httpRequest ((client demoState)\<lparr>requestId := Suc 0\<rparr>)
               (Suc 0) ''tools/list'' (withServer [] None))]\<rparr>)"
proof -
  have m: "store_mcpClient demoStore" by (simp add: demoStore_def)
  have l: "listTools (demoEnv catalogServer rs) None demoState =
     (Inr (JObj [(''tools'', JArr [JObj [(''name'', JStr ''getResourceSchedule'')]])]),
      demoState\<lparr>world := world demoState,
         client := (client demoState)\<lparr>requestId := Suc 0\<rparr>,
         sent := [HttpRequest
            (httpRequest ((client demoState)\<lparr>requestId := Suc 0\<rparr>)
               (Suc 0) ''tools/list'' (withServer [] None))]\<rparr>)"
    by (simp add: catalog_listing) (simp add: demoState_def new_MCPClient_def)
  have n: "JObj [(''tools'', JArr [JObj [(''name'', JStr ''getResourceSchedule'')]])] \<noteq> JNull" by simp
  have a: "aiService demoStore = Some new_AIService" by (simp add: demoStore_def)
  from loadTools_listed [OF m l n] a show ?thesis
    by (simp add: catalog_tools)
qed

text \<open>
  Claim C9, as amended. \<open>setTools\<close> replaces the list of the orchestrator by the list it is
  given, whatever the list was. A refresh by \<open>loadTools\<close> whose listing succeeds stores the
  listed tools in the session store, and hands them to \<open>setTools\<close> only when there is an
  orchestrator and at least one tool was listed: then the list of the orchestrator is
  exactly the list returned; after a listing that returns no tool the orchestrator keeps
  the list it had.
\<close>

theorem loadTools_refreshes_nonempty_catalog:
  assumes "store_mcpClient store" and "listTools E None st = (Inr r, st')" and "r \<noteq> JNull"
  shows "tools (setTools ts svc0) = ts
       \<and> loadTools E (store, st) =
           (store\<lparr>store_tools := (case resultTools r of None \<Rightarrow> [] | Some xs \<Rightarrow> xs),
                  aiService :=
                    (case aiService store of
                       None \<Rightarrow> None
                     | Some svc \<Rightarrow>
                         Some (if (case resultTools r of None \<Rightarrow> [] | Some xs \<Rightarrow> xs) \<noteq> []
                               then setTools (case resultTools r of None \<Rightarrow> [] | Some xs \<Rightarrow> xs) svc
                               else svc))\<rparr>, st')"
proof -
  have "tools (setTools ts svc0) = ts" by (simp add: setTools_def)
  with loadTools_listed [OF assms] show ?thesis by (rule conjI [rotated])
qed

text \<open>
  On a session whose orchestrator has no tool yet, a listing that returns the tool
  \<open>getResourceSchedule\<close> leaves the orchestrator with exactly that tool.
\<close>

theorem loadTools_refreshes_nonempty_catalog_witness:
  "map_option tools (aiService (fst (loadTools (demoEnv catalogServer toolThenText) (demoStore, demoState))))
     = Some [demoTool]
   \<and> store_tools (fst (loadTools (demoEnv catalogServer toolThenText) (demoStore, demoState))) = [demoTool]"
proof -
  let ?E = "demoEnv catalogServer toolThenText"
  let ?r = "JObj [(''tools'', JArr [JObj [(''name'', JStr ''getResourceSchedule'')]])]"
  have m: "store_mcpClient demoStore" by (simp add: demoStore_def)
  have "fst (listTools ?E None demoState) = Inr ?r"
    by (simp add: catalog_listing) (simp add: demoState_def new_MCPClient_def)
  then obtain st1 where l: "listTools ?E None demoState = (Inr ?r, st1)"
    by (cases "listTools ?E None demoState") simp
  have n: "?r \<noteq> JNull" by simp
  have a: "aiService demoStore = Some new_AIService" by (simp add: demoStore_def)
  from loadTools_refreshes_nonempty_catalog [OF m l n, of "[]" new_AIService]
  have "loadTools ?E (demoStore, demoState) =
          (demoStore\<lparr>store_tools := [demoTool], aiService := Some (setTools [demoTool] new_AIService)\<rparr>, st1)"
    by (simp add: catalog_tools a)
  then show ?thesis by (simp add: setTools_def)
qed

text \<open>
  The claim as it is stated fails when a later listing returns no tool. After a first
  refresh that lists \<open>getResourceSchedule\<close>, the listing of the second refresh succeeds
  with the empty list and the store holds the empty list, but the orchestrator still
  holds \<open>getResourceSchedule\<close>.
\<close>

theorem loadTools_stale_counterexample:
  "fst (listTools (demoEnv catalogServer toolThenText) None
          (snd (loadTools (demoEnv catalogServer toolThenText) (demoStore, demoState))))
     = Inr (JObj [(''tools'', JArr [])])
   \<and> store_tools (fst (loadTools (demoEnv catalogServer toolThenText)
         (loadTools (demoEnv catalogServer toolThenText) (demoStore, demoState)))) = []
   \<and> map_option tools (aiService (fst (loadTools (demoEnv catalogServer toolThenText)
         (loadTools (demoEnv catalogServer toolThenText) (demoStore, demoState))))) = Some [demoTool]"
proof -
  let ?E = "demoEnv catalogServer toolThenText"
  let ?store1 = "demoStore\<lparr>store_tools := [demoTool], aiService := Some (setTools [demoTool] new_AIService)\<rparr>"
  let ?st1 = "demoState\<lparr>world := world demoState,
         client := (client demoState)\<lparr>requestId := Suc 0\<rparr>,
         sent := [HttpRequest
            (httpRequest ((client demoState)\<lparr>requestId := Suc 0\<rparr>)
               (Suc 0) ''tools/list'' (withServer [] None))]\<rparr>"
  have first: "loadTools ?E (demoStore, demoState) = (?store1, ?st1)"
    by (rule catalog_first_load)
  have m: "store_mcpClient ?store1" by (simp add: demoStore_def)
  have f: "fst (listTools ?E None ?st1) = Inr (JObj [(''tools'', JArr [])])"
    by (simp add: catalog_listing)
  then obtain st2 where l: "listTools ?E None ?st1 = (Inr (JObj [(''tools'', JArr [])]), st2)"
    by (cases "listTools ?E None ?st1") simp
  have n: "JObj [(''tools'', JArr [])] \<noteq> JNull" by simp
  have a: "aiService ?store1 = Some (setTools [demoTool] new_AIService)" by simp
  have second: "loadTools ?E (?store1, ?st1) =
                  (?store1\<lparr>store_tools := [], aiService := Some (setTools [demoTool] new_AIService)\<rparr>, st2)"
    using loadTools_listed [OF m l n] by (simp add: catalog_tools)
  have 1: "fst (listTools ?E None (snd (loadTools ?E (demoStore, demoState)))) = Inr (JObj [(''tools'', JArr [])])"
    unfolding first using f by simp
  have 2: "store_tools (fst (loadTools ?E (loadTools ?E (demoStore, demoState)))) = []"
    unfolding first second by simp
  have 3: "map_option tools (aiService (fst (loadTools ?E (loadTools ?E (demoStore, demoState))))) = Some [demoTool]"
    unfolding first second by (simp add: setTools_def)
  from 1 2 3 show ?thesis by blast
qed

end
